theory Spec2Isabelle
  imports Main "HOL-Library.Word"
begin

unbundle bit_operations_syntax

section \<open>Relocation records\<close>

text \<open>
  Python integers are unbounded, so addresses, addends and instruction words are \<open>int\<close>;
  \<open>&\<close>, \<open>|\<close>, \<open>~\<close>, \<open><<\<close> and \<open>>>\<close> are \<open>AND\<close>, \<open>OR\<close>, \<open>NOT\<close>, \<open>push_bit\<close> and
  \<open>drop_bit\<close> on \<open>int\<close> (two's complement with infinitely many sign bits, as in Python).
  Reading an attribute of \<open>None\<close> raises \<open>AttributeError\<close>.
\<close>

datatype error = AttributeError | IndexError | CLEOperationError

record symbol =
  is_function :: bool
  sym_rebased_addr :: int

record reloc =
  rebased_addr :: int
  relative_addr :: int
  addend :: int
  is_rela :: bool
  symbol :: symbol
  resolved :: bool
  resolvedby :: "symbol option"

section \<open>32-bit ARM: \<open>arm.py\<close>\<close>

text \<open>
  \<open>_applyReloc\<close>: the \<open>ValueError\<close> raised when the result does not fit the mask is caught
  in the same function, which logs a warning and returns 0.
\<close>

definition applyReloc :: "int \<Rightarrow> int \<Rightarrow> int \<Rightarrow> int" where
  "applyReloc inst result msk =
     (if result AND NOT msk \<noteq> 0 then 0
      else (inst AND NOT msk) OR (result AND msk))"

definition isThumbFunc :: "symbol \<Rightarrow> int \<Rightarrow> bool" where
  "isThumbFunc smb addr = (addr mod 2 = 1 \<and> is_function smb)"

subsection \<open>\<open>R_ARM_CALL\<close>, \<open>R_ARM_PC24\<close>, \<open>R_ARM_JUMP24\<close>\<close>

text \<open>The addend \<open>A\<close> after the sign extension of lines 78-79 (\<open>A = inst = self.addend\<close>).\<close>

definition R_ARM_CALL_A :: "int \<Rightarrow> int" where
  "R_ARM_CALL_A inst = (if inst AND 0x00800000 \<noteq> 0 then inst OR 0xFF000000 else inst)"

text \<open>Line 80: \<open>result = ((S + (A << 2)) | T) - P\<close>.\<close>

definition R_ARM_CALL_result :: "int \<Rightarrow> int \<Rightarrow> int \<Rightarrow> bool \<Rightarrow> int" where
  "R_ARM_CALL_result P inst S T = ((S + push_bit 2 (R_ARM_CALL_A inst)) OR of_bool T) - P"

text \<open>Line 81: \<open>imm24 = (result & 0x03FFFFFE) >> 2\<close>.\<close>

definition R_ARM_CALL_imm24 :: "int \<Rightarrow> int" where
  "R_ARM_CALL_imm24 result = drop_bit 2 (result AND 0x03FFFFFE)"

definition R_ARM_CALL_value :: "reloc \<Rightarrow> error + int" where
  "R_ARM_CALL_value r =
     (case resolvedby r of
        None \<Rightarrow> Inl AttributeError
      | Some rb \<Rightarrow>
          let P = rebased_addr r;
              inst = addend r;
              S = sym_rebased_addr rb;
              T = isThumbFunc (symbol r) S;
              result = R_ARM_CALL_result P inst S T;
              imm24 = R_ARM_CALL_imm24 result
          in Inr (if T
                  then applyReloc inst (0xFA OR drop_bit 1 (result AND 0x02)) 0xFF000000
                  else applyReloc inst imm24 0xFFFFFF))"

text \<open>\<open>R_ARM_JUMP24\<close> and \<open>R_ARM_PC24\<close> are subclasses of \<open>R_ARM_CALL\<close> with an empty body.\<close>

definition R_ARM_JUMP24_value :: "reloc \<Rightarrow> error + int" where
  "R_ARM_JUMP24_value = R_ARM_CALL_value"

definition R_ARM_PC24_value :: "reloc \<Rightarrow> error + int" where
  "R_ARM_PC24_value = R_ARM_CALL_value"

subsection \<open>\<open>R_ARM_PREL31\<close>\<close>

text \<open>The addend \<open>A\<close> after lines 118-119 (commented there as "Sign extend 31-bits").\<close>

definition R_ARM_PREL31_A :: "int \<Rightarrow> int" where
  "R_ARM_PREL31_A A = (if A AND 0x01000000 \<noteq> 0 then A OR 0xF1000000 else A)"

definition R_ARM_PREL31_value :: "reloc \<Rightarrow> error + int" where
  "R_ARM_PREL31_value r =
     (case resolvedby r of
        None \<Rightarrow> Inl AttributeError
      | Some rb \<Rightarrow>
          let P = rebased_addr r;
              A = R_ARM_PREL31_A (addend r);
              S = sym_rebased_addr rb;
              T = isThumbFunc (symbol r) S;
              result = ((S + A) OR of_bool T) - P;
              msk = 0x7FFFFFFF;
              rel31 = result AND msk
          in Inr (applyReloc A rel31 msk))"

subsection \<open>\<open>R_ARM_THM_CALL\<close>\<close>

text \<open>
  Modelled from the spec: the backing memory image of the owner (module \<open>cle.memory\<close>,
  which the relocations call but do not define) is a store of bytes; \<open>load\<close> reads a byte
  range exactly, \<open>pack_word\<close> and \<open>unpack_word\<close> write and read a 4-byte little-endian
  word.
\<close>

type_synonym memory = "int \<Rightarrow> 8 word"

definition load :: "memory \<Rightarrow> int \<Rightarrow> nat \<Rightarrow> 8 word list" where
  "load mem addr n = map (\<lambda>i. mem (addr + int i)) [0..<n]"

definition word_bytes :: "int \<Rightarrow> 8 word list" where
  "word_bytes v = [word_of_int v, word_of_int (drop_bit 8 v),
                   word_of_int (drop_bit 16 v), word_of_int (drop_bit 24 v)]"

definition pack_word :: "int \<Rightarrow> int \<Rightarrow> memory \<Rightarrow> memory" where
  "pack_word addr v mem =
     mem(addr := word_of_int v, addr + 1 := word_of_int (drop_bit 8 v),
         addr + 2 := word_of_int (drop_bit 16 v), addr + 3 := word_of_int (drop_bit 24 v))"

definition unpack_word :: "int \<Rightarrow> memory \<Rightarrow> int" where
  "unpack_word addr mem =
     uint (mem addr) OR push_bit 8 (uint (mem (addr + 1)))
       OR push_bit 16 (uint (mem (addr + 2))) OR push_bit 24 (uint (mem (addr + 3)))"

text \<open>
  The state \<open>value\<close> works on: the cache \<open>self._insn_bytes\<close> of the relocation and the
  memory of its owner.
\<close>

record thm_call_state =
  insn_bytes :: "8 word list option"
  owner_memory :: memory

text \<open>Lines 299-301: the two little-endian halfwords, the first one the high half.\<close>

fun thm_inst :: "8 word list \<Rightarrow> error + int" where
  "thm_inst (b0 # b1 # b2 # b3 # rest) =
     (let hi = push_bit 8 (uint b1) OR uint b0;
          lo = push_bit 8 (uint b3) OR uint b2
      in Inr (push_bit 16 hi OR lo))"
| "thm_inst _ = Inl IndexError"

definition gen_mask :: "nat \<Rightarrow> nat \<Rightarrow> int" where
  "gen_mask n_bits first_bit = push_bit first_bit (push_bit n_bits 1 - 1)"

text \<open>
  \<open>bool(v) & 1\<close> is 1 for a nonzero \<open>v\<close> and 0 otherwise; \<open>not sign_bit\<close> is \<open>True\<close> for
  \<open>sign_bit = 0\<close>, and counts as 1 under \<open>^\<close>.
\<close>

definition bool_and_1 :: "int \<Rightarrow> int" where
  "bool_and_1 v = of_bool (v \<noteq> 0) AND 1"

text \<open>Lines 314-328: the initial addend of a REL relocation, built from \<open>A = 0\<close>.\<close>

definition thm_addend :: "int \<Rightarrow> int" where
  "thm_addend inst =
     (let A = 0 OR push_bit 1 (inst AND gen_mask 11 0);
          A = A OR push_bit 12 (drop_bit 16 (inst AND gen_mask 10 16));
          sign_bit = bool_and_1 (inst AND gen_mask 1 26);
          J1 = bool_and_1 (inst AND gen_mask 1 13) XOR of_bool (sign_bit = 0);
          J2 = bool_and_1 (inst AND gen_mask 1 11) XOR of_bool (sign_bit = 0);
          A = A OR push_bit 23 J1;
          A = A OR push_bit 22 J2;
          A = A AND 0x7FFFFF
      in if sign_bit \<noteq> 0 then A OR 0xFF800000 else A)"

text \<open>Line 333.\<close>

definition thm_x :: "int \<Rightarrow> int \<Rightarrow> int \<Rightarrow> bool \<Rightarrow> int" where
  "thm_x P S A T = (((S + A) OR of_bool T) - P) AND 0xFFFFFFFF"

text \<open>Line 337: the condition under which \<open>CLEOperationError\<close> is raised.\<close>

definition thm_out_of_range :: "int \<Rightarrow> bool" where
  "thm_out_of_range x = (x AND 0xFF800000 \<noteq> 0 \<and> x AND 0xFF800000 \<noteq> 0xFF800000)"

text \<open>Lines 349-362: the offset bits are cleared and set again from \<open>x\<close>.\<close>

definition thm_rebuild :: "int \<Rightarrow> int \<Rightarrow> int" where
  "thm_rebuild inst x =
     (let inst = inst AND NOT 0x07FF2FFF;
          sign_bit = bool_and_1 (x AND gen_mask 1 24);
          J1 = bool_and_1 (x AND gen_mask 1 23) XOR of_bool (sign_bit = 0);
          J2 = bool_and_1 (x AND gen_mask 1 22) XOR of_bool (sign_bit = 0);
          inst = inst OR push_bit 26 sign_bit;
          inst = inst OR push_bit 13 J1;
          inst = inst OR push_bit 11 J2;
          inst = inst OR drop_bit 1 (x AND gen_mask 11 1)
      in inst OR push_bit 16 (drop_bit 12 (x AND gen_mask 10 12)))"

text \<open>Lines 366-370: back to two little-endian halfwords, as one little-endian word.\<close>

definition thm_result :: "int \<Rightarrow> int" where
  "thm_result inst =
     (let raw0 = drop_bit 16 (inst AND 0x00FF0000);
          raw1 = drop_bit 24 (inst AND 0xFF000000);
          raw2 = inst AND 0x00FF;
          raw3 = drop_bit 8 (inst AND 0xFF00)
      in push_bit 24 raw3 OR push_bit 16 raw2 OR push_bit 8 raw1 OR raw0)"

text \<open>Lines 296-297: the instruction bytes are loaded once and cached.\<close>

definition thm_call_bytes :: "reloc \<Rightarrow> thm_call_state \<Rightarrow> 8 word list" where
  "thm_call_bytes r st =
     (case insn_bytes st of
        None \<Rightarrow> load (owner_memory st) (relative_addr r) 4
      | Some cached \<Rightarrow> cached)"

definition R_ARM_THM_CALL_value ::
  "reloc \<Rightarrow> thm_call_state \<Rightarrow> (error + int) \<times> thm_call_state" where
  "R_ARM_THM_CALL_value r st =
     (case resolvedby r of
        None \<Rightarrow> (Inl AttributeError, st)
      | Some rb \<Rightarrow>
          let P = rebased_addr r;
              S = sym_rebased_addr rb;
              T = isThumbFunc (symbol r) S;
              bs = thm_call_bytes r st;
              st = st\<lparr>insn_bytes := Some bs\<rparr>
          in case thm_inst bs of
               Inl e \<Rightarrow> (Inl e, st)
             | Inr inst \<Rightarrow>
                 let A = (if is_rela r then addend r else thm_addend inst);
                     x = thm_x P S A T
                 in if thm_out_of_range x then (Inl CLEOperationError, st)
                    else (Inr (thm_result (thm_rebuild inst x)), st))"

text \<open>
  The offset \<open>x\<close> of line 333 is a 32-bit two's complement number: it fits the window when
  its signed reading lies in \<open>[-2\<^sup>2\<^sup>3, 2\<^sup>2\<^sup>3)\<close>.
\<close>

definition fits_window :: "int \<Rightarrow> bool" where
  "fits_window x = (- (2 ^ 23) \<le> signed_take_bit 31 x \<and> signed_take_bit 31 x < 2 ^ 23)"

text \<open>
  What lines 296-328 decode, for a REL relocation with no cached bytes, from the four bytes
  at an address.
\<close>

definition thm_decode :: "memory \<Rightarrow> int \<Rightarrow> error + int" where
  "thm_decode mem addr =
     (case thm_inst (load mem addr 4) of
        Inl e \<Rightarrow> Inl e
      | Inr inst \<Rightarrow> Inr (thm_addend inst))"

section \<open>AArch64: \<open>arm64.py\<close>\<close>

text \<open>
  The classes of \<open>arm64.py\<close> that patch an instruction; each has a \<open>value\<close> property and a
  \<open>relocate\<close> method of its own.
\<close>

datatype aarch64_reloc =
    R_AARCH64_JUMP26
  | R_AARCH64_CALL26
  | R_AARCH64_ADR_PREL_PG_HI21
  | R_AARCH64_ADD_ABS_LO12_NC
  | R_AARCH64_LDST8_ABS_LO12_NC
  | R_AARCH64_LDST16_ABS_LO12_NC
  | R_AARCH64_LDST32_ABS_LO12_NC
  | R_AARCH64_LDST64_ABS_LO12_NC
  | R_AARCH64_LDST128_ABS_LO12_NC

text \<open>The \<open>value\<close> properties, for a relocation resolved by the symbol \<open>rb\<close>.\<close>

fun aarch64_value :: "aarch64_reloc \<Rightarrow> reloc \<Rightarrow> symbol \<Rightarrow> int" where
  "aarch64_value R_AARCH64_JUMP26 r rb =
     (let A = addend r; S = sym_rebased_addr rb; P = rebased_addr r in S + A - P)"
| "aarch64_value R_AARCH64_CALL26 r rb =
     (let A = addend r; S = sym_rebased_addr rb; P = rebased_addr r in S + A - P)"
| "aarch64_value R_AARCH64_ADR_PREL_PG_HI21 r rb =
     (let A = addend r; S = sym_rebased_addr rb; P = rebased_addr r
      in ((S + A) AND NOT 0xFFF) - (P AND NOT 0xFFF))"
| "aarch64_value k r rb =
     (let A = addend r; S = sym_rebased_addr rb in S + A)"

text \<open>The immediate of \<open>R_AARCH64_ADR_PREL_PG_HI21.relocate\<close> and its two groups.\<close>

definition adrp_imm :: "int \<Rightarrow> int" where
  "adrp_imm v = drop_bit 12 v AND 0x1FFFFF"

definition adrp_immlo :: "int \<Rightarrow> int" where
  "adrp_immlo v = adrp_imm v AND 3"

definition adrp_immhi :: "int \<Rightarrow> int" where
  "adrp_immhi v = drop_bit 2 (adrp_imm v)"

text \<open>
  The word each \<open>relocate\<close> passes to \<open>pack_word\<close>, from the value \<open>v\<close> and the word \<open>w\<close> it
  read with \<open>unpack_word\<close>.
\<close>

fun aarch64_patch :: "aarch64_reloc \<Rightarrow> int \<Rightarrow> int \<Rightarrow> int" where
  "aarch64_patch R_AARCH64_JUMP26 v w =
     (let instr = w AND 0xFC000000; imm = drop_bit 2 v AND 0x03FFFFFF in instr OR imm)"
| "aarch64_patch R_AARCH64_CALL26 v w =
     (let instr = w AND 0xFC000000; imm = drop_bit 2 v AND 0x03FFFFFF in instr OR imm)"
| "aarch64_patch R_AARCH64_ADR_PREL_PG_HI21 v w =
     (let instr = w AND 0x9F00001F; immlo = adrp_immlo v; immhi = adrp_immhi v
      in (instr OR push_bit 5 immhi) OR push_bit 29 immlo)"
| "aarch64_patch R_AARCH64_ADD_ABS_LO12_NC v w =
     (let instr = w AND 0xFFC003FF; imm = v AND 0xFFF in instr OR push_bit 10 imm)"
| "aarch64_patch R_AARCH64_LDST8_ABS_LO12_NC v w =
     (let instr = w AND 0xFFC003FF; imm = v AND 0xFFF in instr OR push_bit 10 imm)"
| "aarch64_patch R_AARCH64_LDST16_ABS_LO12_NC v w =
     (let instr = w AND 0xFFC003FF; imm = drop_bit 1 (v AND 0xFFF) in instr OR push_bit 10 imm)"
| "aarch64_patch R_AARCH64_LDST32_ABS_LO12_NC v w =
     (let instr = w AND 0xFFC003FF; imm = drop_bit 2 (v AND 0xFFF) in instr OR push_bit 10 imm)"
| "aarch64_patch R_AARCH64_LDST64_ABS_LO12_NC v w =
     (let instr = w AND 0xFFC003FF; imm = drop_bit 3 (v AND 0xFFF) in instr OR push_bit 10 imm)"
| "aarch64_patch R_AARCH64_LDST128_ABS_LO12_NC v w =
     (let instr = w AND 0xFFC003FF; imm = drop_bit 4 (v AND 0xFFF) in instr OR push_bit 10 imm)"

text \<open>The range checks of the branches and of ADRP log a warning and go on.\<close>

fun aarch64_in_range :: "aarch64_reloc \<Rightarrow> int \<Rightarrow> bool" where
  "aarch64_in_range R_AARCH64_JUMP26 v = (- (2 ^ 27) \<le> v \<and> v < 2 ^ 27)"
| "aarch64_in_range R_AARCH64_CALL26 v = (- (2 ^ 27) \<le> v \<and> v < 2 ^ 27)"
| "aarch64_in_range R_AARCH64_ADR_PREL_PG_HI21 v = (- (2 ^ 32) \<le> v \<and> v < 2 ^ 32)"
| "aarch64_in_range k v = True"

text \<open>The memory of the owner and the warnings logged.\<close>

record owner_state =
  owner_mem :: memory
  owner_warnings :: "string list"

text \<open>
  \<open>relocate\<close>. The flag \<open>self.resolved\<close> and the binding \<open>self.resolvedby\<close> are attributes
  of the relocation record; \<open>self.value\<close> reads \<open>self.resolvedby.rebased_addr\<close>, before
  anything is written.
\<close>

definition aarch64_relocate ::
  "aarch64_reloc \<Rightarrow> reloc \<Rightarrow> owner_state \<Rightarrow> (error + bool) \<times> owner_state" where
  "aarch64_relocate k r st =
     (if \<not> resolved r then (Inr False, st)
      else case resolvedby r of
        None \<Rightarrow> (Inl AttributeError, st)
      | Some rb \<Rightarrow>
          let v = aarch64_value k r rb;
              st = (if \<not> aarch64_in_range k v
                    then st\<lparr>owner_warnings := owner_warnings st @ [''relocation out of range'']\<rparr>
                    else st);
              w = unpack_word (relative_addr r) (owner_mem st)
          in (Inr True,
              st\<lparr>owner_mem := pack_word (relative_addr r) (aarch64_patch k v w) (owner_mem st)\<rparr>))"

text \<open>
  The bits of the instruction word each type owns: the low 26 bits of the branches, bits
  \<open>[30:29]\<close> and \<open>[23:5]\<close> of ADRP, the 12-bit field \<open>[21:10]\<close> of the low-12 family.
\<close>

fun aarch64_field :: "aarch64_reloc \<Rightarrow> nat set" where
  "aarch64_field R_AARCH64_JUMP26 = {0..<26}"
| "aarch64_field R_AARCH64_CALL26 = {0..<26}"
| "aarch64_field R_AARCH64_ADR_PREL_PG_HI21 = {5..<24} \<union> {29, 30}"
| "aarch64_field k = {10..<22}"

section \<open>PE base relocations: \<open>pe.py\<close>\<close>

text \<open>
  An entry of a base-relocation block as \<open>pefile\<close> hands it over: its type and its RVA.
  \<open>pefile.RELOCATION_TYPE["IMAGE_REL_BASED_HIGHADJ"]\<close> is 4.
\<close>

record pe_entry =
  entry_type :: nat
  entry_rva :: int

definition RELOCATION_TYPE_HIGHADJ :: nat where
  "RELOCATION_TYPE_HIGHADJ = 4"

text \<open>
  The relocation objects \<open>_make_reloc\<close> builds. The classes that \<open>get_relocation\<close> finds
  for an architecture and a type are a parameter \<open>'c\<close>.
\<close>

datatype 'c pe_reloc =
    IMAGE_REL_BASED_ABSOLUTE "string option" int "string option"
  | DllImport "string option" int "string option"
  | IMAGE_REL_BASED_HIGHADJ int int
  | RelocClass 'c "string option" int

definition make_reloc ::
  "(nat \<Rightarrow> 'c option) \<Rightarrow> int \<Rightarrow> nat option \<Rightarrow> string option \<Rightarrow> int option \<Rightarrow> string option
     \<Rightarrow> 'c pe_reloc option" where
  "make_reloc get_relocation addr reloc_type smb next_rva resolvewith =
     (if reloc_type = Some 0 then Some (IMAGE_REL_BASED_ABSOLUTE smb addr resolvewith)
      else case reloc_type of
        None \<Rightarrow> Some (DllImport smb addr resolvewith)
      | Some t \<Rightarrow>
          (case next_rva of
             Some nr \<Rightarrow> Some (IMAGE_REL_BASED_HIGHADJ addr nr)
           | None \<Rightarrow>
               (case get_relocation t of
                  None \<Rightarrow> None
                | Some cls \<Rightarrow> Some (RelocClass cls smb addr))))"

text \<open>The part of the \<open>PE\<close> object that \<open>__register_relocs\<close> changes, and the warnings.\<close>

record 'c pe =
  pic :: bool
  relocs :: "'c pe_reloc list"
  pe_warnings :: "string list"

text \<open>Line 88 of \<open>__init__\<close>, with \<open>DllCharacteristics\<close> as \<open>dll\<close>.\<close>

definition init_pic :: "bool \<Rightarrow> int \<Rightarrow> bool" where
  "init_pic p dll = (p \<or> dll AND 0x40 \<noteq> 0)"

text \<open>Lines 322-325.\<close>

definition add_reloc :: "'c pe_reloc option \<Rightarrow> 'c pe \<Rightarrow> 'c pe" where
  "add_reloc reloc s =
     (case reloc of
        None \<Rightarrow> s
      | Some rl \<Rightarrow> s\<lparr>pic := True, relocs := relocs s @ [rl]\<rparr>)"

text \<open>The \<open>while\<close> loop of lines 306-327 over the entries of one block.\<close>

function register_entries ::
  "(nat \<Rightarrow> 'c option) \<Rightarrow> pe_entry list \<Rightarrow> nat \<Rightarrow> 'c pe \<Rightarrow> 'c pe" where
  "register_entries get_relocation entries entry_idx s =
     (if entry_idx < length entries then
        let reloc_data = entries ! entry_idx in
        if entry_type reloc_data = RELOCATION_TYPE_HIGHADJ then
          if entry_idx = length entries then
            s\<lparr>pe_warnings := pe_warnings s @ [''PE contains corrupt base relocation table'']\<rparr>
          else
            let next_entry = entries ! entry_idx;
                reloc = make_reloc get_relocation (entry_rva reloc_data)
                          (Some (entry_type reloc_data)) None (Some (entry_rva next_entry)) None
            in register_entries get_relocation entries (entry_idx + 1 + 1) (add_reloc reloc s)
        else
          let reloc = make_reloc get_relocation (entry_rva reloc_data)
                        (Some (entry_type reloc_data)) None None None
          in register_entries get_relocation entries (entry_idx + 1) (add_reloc reloc s)
      else s)"
  by pat_completeness auto
termination
  by (relation "measure (\<lambda>(g, entries, entry_idx, s). length entries - entry_idx)") auto

text \<open>
  \<open>__register_relocs\<close>: \<open>None\<close> stands for a \<open>pefile\<close> object without the attribute
  \<open>DIRECTORY_ENTRY_BASERELOC\<close>.
\<close>

definition register_relocs ::
  "(nat \<Rightarrow> 'c option) \<Rightarrow> pe_entry list list option \<Rightarrow> 'c pe \<Rightarrow> 'c pe" where
  "register_relocs get_relocation dir s =
     (case dir of
        None \<Rightarrow> s
      | Some blocks \<Rightarrow> fold (\<lambda>base_reloc s. register_entries get_relocation base_reloc 0 s) blocks s)"

section \<open>Bit-level facts about the constants of the source\<close>

lemma bit_const:
  "c = push_bit f (mask n) \<Longrightarrow> bit (c::int) k \<longleftrightarrow> f \<le> k \<and> k < f + n"
  by (auto simp add: bit_simps)

lemma and_0x800000_iff: "(a AND 0x800000 \<noteq> 0) = bit (a::int) 23"
  using bit_iff_and_push_bit_not_eq_0[of a 23] by simp

section \<open>\<open>R_ARM_CALL\<close>: the ARM path\<close>

lemma R_ARM_CALL_no_addend_field:
  assumes "inst AND 0xFFFFFF = 0"
  shows "R_ARM_CALL_A inst = inst"
    and "R_ARM_CALL_result 0x1000 inst 0x2000 False AND 0x3FFFFFE = 0x1000"
proof -
  have t: "take_bit 24 inst = 0"
    using assms by (simp add: take_bit_eq_mask mask_eq_exp_minus_1)
  have "bit (take_bit 24 inst) 23 = bit inst 23"
    by (simp add: bit_take_bit_iff)
  with t have nb: "\<not> bit inst 23" by simp
  then show A: "R_ARM_CALL_A inst = inst"
    by (simp add: R_ARM_CALL_A_def and_0x800000_iff)
  have "take_bit 26 (push_bit 2 inst) = push_bit 2 (take_bit 24 inst)"
    by (simp add: take_bit_push_bit)
  with t have z: "take_bit 26 (push_bit 2 inst) = 0" by simp
  have "take_bit 26 (0x1000 + push_bit 2 inst)
        = take_bit 26 (take_bit 26 0x1000 + take_bit 26 (push_bit 2 inst))"
    by (simp only: take_bit_add)
  also have "\<dots> = 0x1000" unfolding z by simp
  finally have tb: "take_bit 26 (0x1000 + push_bit 2 inst) = 0x1000" .
  have "(0x1000 + push_bit 2 inst) AND 0x3FFFFFE
        = take_bit 26 (0x1000 + push_bit 2 inst) AND 0x3FFFFFE"
    unfolding take_bit_eq_mask and.assoc by (simp add: mask_eq_exp_minus_1)
  also have "\<dots> = 0x1000" unfolding tb by simp
  finally show "R_ARM_CALL_result 0x1000 inst 0x2000 False AND 0x3FFFFFE = 0x1000"
    by (simp add: R_ARM_CALL_result_def A)
qed

lemma and_NOT_0xFFFFFF_32:
  assumes "0 \<le> inst" "inst < 2 ^ 32"
  shows "inst AND NOT 0xFFFFFF = inst AND (0xFF000000::int)"
proof -
  have i: "take_bit 32 inst = inst"
    using assms by (simp add: take_bit_int_eq_self)
  have "inst AND NOT 0xFFFFFF = take_bit 32 inst AND NOT 0xFFFFFF"
    by (simp only: i)
  also have "\<dots> = inst AND (mask 32 AND NOT 0xFFFFFF)"
    by (simp only: take_bit_eq_mask and.assoc)
  also have "mask 32 AND NOT 0xFFFFFF = (0xFF000000::int)"
    by (simp add: mask_eq_exp_minus_1)
  finally show ?thesis .
qed

text \<open>
  Claim C7. \<open>R_ARM_CALL\<close> at \<open>P = 0x1000\<close> with resolved symbol address \<open>S = 0x2000\<close>: the
  address is even, so \<open>T = 0\<close> whatever the symbol's type. With \<open>self.addend = 0\<close> the
  computed branch value is \<open>0x1000\<close>, whose encoded 24-bit immediate is \<open>0x400\<close>. For every
  32-bit original instruction whose 24-bit addend field is zero, the patched instruction is
  \<open>(inst & 0xFF000000) | 0x400\<close>.
\<close>

theorem R_ARM_CALL_example_scenario:
  "R_ARM_CALL_result 0x1000 0 0x2000 (isThumbFunc smb 0x2000) = 0x1000
   \<and> R_ARM_CALL_imm24 0x1000 = 0x400
   \<and> (inst AND 0xFFFFFF = 0 \<and> 0 \<le> inst \<and> inst < 2 ^ 32 \<longrightarrow>
        R_ARM_CALL_imm24 (R_ARM_CALL_result 0x1000 inst 0x2000 (isThumbFunc smb 0x2000)) = 0x400
        \<and> R_ARM_CALL_value
            \<lparr>rebased_addr = 0x1000, relative_addr = ra, addend = inst, is_rela = rl,
             symbol = smb, resolved = True, resolvedby = Some \<lparr>is_function = f, sym_rebased_addr = 0x2000\<rparr>\<rparr>
          = Inr ((inst AND 0xFF000000) OR 0x400))"
proof -
  have T: "isThumbFunc smb 0x2000 = False"
    by (simp add: isThumbFunc_def)
  have c1: "R_ARM_CALL_result 0x1000 0 0x2000 False = 0x1000"
    by (simp add: R_ARM_CALL_result_def R_ARM_CALL_A_def)
  have c2: "R_ARM_CALL_imm24 0x1000 = 0x400"
    by (simp add: R_ARM_CALL_imm24_def)
  have c3: "R_ARM_CALL_imm24 (R_ARM_CALL_result 0x1000 inst 0x2000 False) = 0x400
        \<and> R_ARM_CALL_value
            \<lparr>rebased_addr = 0x1000, relative_addr = ra, addend = inst, is_rela = rl,
             symbol = smb, resolved = True, resolvedby = Some \<lparr>is_function = f, sym_rebased_addr = 0x2000\<rparr>\<rparr>
          = Inr ((inst AND 0xFF000000) OR 0x400)"
    if h: "inst AND 0xFFFFFF = 0" "0 \<le> inst" "inst < 2 ^ 32"
  proof -
    have i: "R_ARM_CALL_imm24 (R_ARM_CALL_result 0x1000 inst 0x2000 False) = 0x400"
      unfolding R_ARM_CALL_imm24_def R_ARM_CALL_no_addend_field(2)[OF h(1)] by simp
    have "applyReloc inst 0x400 0xFFFFFF = (inst AND NOT 0xFFFFFF) OR 0x400"
      by (simp add: applyReloc_def)
    then have a: "applyReloc inst 0x400 0xFFFFFF = (inst AND 0xFF000000) OR 0x400"
      by (simp only: and_NOT_0xFFFFFF_32[OF h(2,3)])
    show ?thesis
      by (simp add: R_ARM_CALL_value_def T i a)
  qed
  show ?thesis
    unfolding T using c1 c2 c3 by blast
qed

theorem R_ARM_CALL_example_scenario_witness:
  "R_ARM_CALL_value
     \<lparr>rebased_addr = 0x1000, relative_addr = 0x1000, addend = 0xEB000000, is_rela = False,
      symbol = \<lparr>is_function = True, sym_rebased_addr = 0\<rparr>,
      resolved = True, resolvedby = Some \<lparr>is_function = True, sym_rebased_addr = 0x2000\<rparr>\<rparr>
   = Inr 0xEB000400"
  using R_ARM_CALL_example_scenario
    [of "\<lparr>is_function = True, sym_rebased_addr = 0\<rparr>" "0xEB000000" "0x1000" False True]
  by simp

section \<open>\<open>R_ARM_CALL\<close>: the Thumb path\<close>

text \<open>
  The pattern \<open>0xFA | bit_h\<close> lies in the low byte, the mask \<open>0xFF000000\<close> selects the top
  byte: the check of \<open>_applyReloc\<close> fails for every such call.
\<close>

lemma applyReloc_thumb_stub:
  "applyReloc inst (0xFA OR bit_h) 0xFF000000 = 0"
proof -
  let ?X = "(0xFA OR bit_h) AND NOT (0xFF000000::int)"
  have h: "bit ?X 1"
    by (simp add: bit_simps)
  have "?X \<noteq> 0"
  proof
    assume e: "?X = 0"
    from h show False unfolding e by simp
  qed
  then show ?thesis
    by (simp add: applyReloc_def)
qed

lemma R_ARM_CALL_value_thumb:
  assumes "resolvedby r = Some rb" and "isThumbFunc (symbol r) (sym_rebased_addr rb)"
  shows "R_ARM_CALL_value r = Inr 0"
  using assms by (simp add: R_ARM_CALL_value_def Let_def applyReloc_thumb_stub)

text \<open>
  Claim C1, at a BL instruction (\<open>0xEB000010\<close>) that targets a Thumb function at \<open>0x2001\<close>:
  the value computed for \<open>R_ARM_CALL\<close>, \<open>R_ARM_PC24\<close> and \<open>R_ARM_JUMP24\<close> is 0, which is
  not the instruction with one byte replaced by \<open>0xFA\<close> or \<open>0xFB\<close>, be it the low byte
  or the top byte that the mask selects.
\<close>

theorem R_ARM_CALL_thumb_value_is_zero:
  "R_ARM_CALL_value
     \<lparr>rebased_addr = 0x1000, relative_addr = 0x1000, addend = 0xEB000010, is_rela = False,
      symbol = \<lparr>is_function = True, sym_rebased_addr = 0x2001\<rparr>,
      resolved = True, resolvedby = Some \<lparr>is_function = True, sym_rebased_addr = 0x2001\<rparr>\<rparr> = Inr 0
   \<and> R_ARM_PC24_value
     \<lparr>rebased_addr = 0x1000, relative_addr = 0x1000, addend = 0xEB000010, is_rela = False,
      symbol = \<lparr>is_function = True, sym_rebased_addr = 0x2001\<rparr>,
      resolved = True, resolvedby = Some \<lparr>is_function = True, sym_rebased_addr = 0x2001\<rparr>\<rparr> = Inr 0
   \<and> R_ARM_JUMP24_value
     \<lparr>rebased_addr = 0x1000, relative_addr = 0x1000, addend = 0xEB000010, is_rela = False,
      symbol = \<lparr>is_function = True, sym_rebased_addr = 0x2001\<rparr>,
      resolved = True, resolvedby = Some \<lparr>is_function = True, sym_rebased_addr = 0x2001\<rparr>\<rparr> = Inr 0
   \<and> (0::int) \<noteq> (0xEB000010 AND NOT 0xFF) OR 0xFA
   \<and> (0::int) \<noteq> (0xEB000010 AND NOT 0xFF) OR 0xFB
   \<and> (0::int) \<noteq> (0xEB000010 AND NOT 0xFF000000) OR 0xFA000000
   \<and> (0::int) \<noteq> (0xEB000010 AND NOT 0xFF000000) OR 0xFB000000"
  by (simp add: R_ARM_PC24_value_def R_ARM_JUMP24_value_def R_ARM_CALL_value_thumb isThumbFunc_def)

section \<open>\<open>R_ARM_PREL31\<close>\<close>

text \<open>
  Claim C3, at a stored word \<open>0x01000000\<close> (bit 30 clear, so a positive 31-bit field) with
  \<open>S = 0x2000\<close>, \<open>P = 0x1000\<close> and a symbol that is not a function: the addend becomes
  \<open>0xF1000000\<close> (the test is on bit 24, and bits 24 and 28 to 31 are set), the value is
  \<open>0xF1001000\<close>, and bit 31 of it differs from bit 31 of the word read. Sign extension from
  bit 30 leaves the addend as it is and gives \<open>0x01001000\<close>.
\<close>

theorem R_ARM_PREL31_sign_extension_at_bit_24:
  "R_ARM_PREL31_A 0x01000000 = 0xF1000000
   \<and> \<not> bit (0x01000000::int) 30
   \<and> R_ARM_PREL31_value
       \<lparr>rebased_addr = 0x1000, relative_addr = 0x1000, addend = 0x01000000, is_rela = False,
        symbol = \<lparr>is_function = False, sym_rebased_addr = 0x2000\<rparr>,
        resolved = True, resolvedby = Some \<lparr>is_function = False, sym_rebased_addr = 0x2000\<rparr>\<rparr>
     = Inr 0xF1001000
   \<and> bit (0xF1001000::int) 31 \<and> \<not> bit (0x01000000::int) 31
   \<and> (((0x2000 + 0x01000000) OR of_bool False) - 0x1000) AND 0x7FFFFFFF = (0x01001000::int)"
  by (simp add: R_ARM_PREL31_value_def R_ARM_PREL31_A_def isThumbFunc_def applyReloc_def)

section \<open>\<open>R_ARM_THM_CALL\<close>: the bits of the decoder and the encoder\<close>

lemma gen_mask_eq: "gen_mask n f = push_bit f (mask n)"
  by (simp add: gen_mask_def mask_eq_exp_minus_1)

lemma bool_and_1_bit: "bool_and_1 (v AND gen_mask 1 k) = of_bool (bit v k)"
proof -
  have "gen_mask 1 k = push_bit k 1" by (simp add: gen_mask_def)
  then show ?thesis
    using bit_iff_and_push_bit_not_eq_0[of v k] by (simp add: bool_and_1_def)
qed

lemma bit_field:
  "bit (push_bit b (drop_bit a (x AND gen_mask w a))) n \<longleftrightarrow> b \<le> n \<and> n < b + w \<and> bit x (n - b + a)"
proof (cases "b \<le> n")
  case True
  then have "a + (n - b) = n - b + a" by simp
  with True show ?thesis
    by (auto simp add: gen_mask_eq bit_simps)
next
  case False
  then show ?thesis by (simp add: bit_simps)
qed

lemma bit_field_low:
  "bit (drop_bit a (x AND gen_mask w a)) n \<longleftrightarrow> n < w \<and> bit x (n + a)"
  using bit_field[of 0 a x w n] by simp

lemma bit_field_up:
  "bit (push_bit b (x AND gen_mask w 0)) n \<longleftrightarrow> b \<le> n \<and> n < b + w \<and> bit x (n - b)"
  using bit_field[of b 0 x w n] by simp

lemma bit_0x07FF2FFF: "bit (0x07FF2FFF::int) n \<longleftrightarrow> n < 12 \<or> n = 13 \<or> (16 \<le> n \<and> n < 27)"
proof -
  have "(0x07FF2FFF::int) = push_bit 16 (mask 11) OR push_bit 13 (mask 1) OR push_bit 0 (mask 12)"
    by (simp add: mask_eq_exp_minus_1)
  then show ?thesis
    by (simp only: bit_or_iff bit_const[OF refl]) auto
qed

lemma bit_push_of_bool: "bit (push_bit k (of_bool b :: int)) n \<longleftrightarrow> b \<and> n = k"
  by (auto simp add: bit_simps)

lemma xor_of_bool: "(of_bool a :: int) XOR of_bool b = of_bool (a \<noteq> b)"
  by simp

lemma of_bool_eq_0: "((of_bool a :: int) = 0) = (\<not> a)"
  by simp

lemma bit_thm_rebuild:
  "bit (thm_rebuild inst x) n \<longleftrightarrow>
     (((((bit inst n \<and> \<not> (n < 12 \<or> n = 13 \<or> (16 \<le> n \<and> n < 27))
       \<or> (bit x 24 \<and> n = 26))
       \<or> ((bit x 23 \<noteq> (\<not> bit x 24)) \<and> n = 13))
       \<or> ((bit x 22 \<noteq> (\<not> bit x 24)) \<and> n = 11))
       \<or> (n < 11 \<and> bit x (n + 1)))
       \<or> (16 \<le> n \<and> n < 16 + 10 \<and> bit x (n - 16 + 12)))"
  unfolding thm_rebuild_def Let_def bool_and_1_bit xor_of_bool of_bool_eq_0
  by (simp only: bit_or_iff bit_and_iff bit_not_int_iff bit_push_of_bool bit_0x07FF2FFF bit_field bit_field_low)

lemma bit_0x7FFFFF: "bit (0x7FFFFF::int) k \<longleftrightarrow> k < 23"
  using bit_const[of "0x7FFFFF" 0 23 k] by (simp add: mask_eq_exp_minus_1)

lemma bit_0xFF800000: "bit (0xFF800000::int) k \<longleftrightarrow> 23 \<le> k \<and> k < 32"
  using bit_const[of "0xFF800000" 23 9 k] by (simp add: mask_eq_exp_minus_1)

lemma bit_thm_addend:
  "bit (thm_addend i) n \<longleftrightarrow>
     (((((1 \<le> n \<and> n < 1 + 11 \<and> bit i (n - 1))
        \<or> (12 \<le> n \<and> n < 12 + 10 \<and> bit i (n - 12 + 16)))
        \<or> ((bit i 13 \<noteq> (\<not> bit i 26)) \<and> n = 23))
        \<or> ((bit i 11 \<noteq> (\<not> bit i 26)) \<and> n = 22))
        \<and> n < 23)
      \<or> (bit i 26 \<and> 23 \<le> n \<and> n < 32)"
  unfolding thm_addend_def Let_def bool_and_1_bit xor_of_bool of_bool_eq_0 or.left_neutral
  by (cases "bit i 26")
     (simp_all only: bit_or_iff bit_and_iff bit_push_of_bool bit_0x7FFFFF bit_0xFF800000 bit_field bit_field_up
        of_bool_eq_0 not_not if_True if_False simp_thms of_bool_eq(1) of_bool_eq(2) one_neq_zero)


lemma in_range_bits:
  assumes "\<not> thm_out_of_range x" and "23 \<le> n" and "n < 32"
  shows "bit x n = bit x 24"
proof -
  from assms(1) consider "x AND 0xFF800000 = 0" | "x AND 0xFF800000 = 0xFF800000"
    by (auto simp add: thm_out_of_range_def)
  then show ?thesis
  proof cases
    case 1
    have a: "\<not> bit (x AND 0xFF800000) k" for k
      unfolding 1 by simp
    have "\<not> bit x k" if "23 \<le> k" "k < 32" for k
      using that a[of k] by (simp add: bit_and_iff bit_0xFF800000)
    from this[of n] this[of 24] assms(2,3) show ?thesis by simp
  next
    case 2
    have a: "bit (x AND 0xFF800000) k = bit (0xFF800000::int) k" for k
      unfolding 2 by simp
    have "bit x k" if "23 \<le> k" "k < 32" for k
      using that a[of k] by (simp add: bit_and_iff bit_0xFF800000)
    from this[of n] this[of 24] assms(2,3) show ?thesis by simp
  qed
qed

lemma high_bits_32:
  assumes "take_bit 32 x = (x::int)" and "32 \<le> n"
  shows "\<not> bit x n"
proof -
  have "bit (take_bit 32 x) n = (n < 32 \<and> bit x n)"
    by (simp add: bit_take_bit_iff)
  with assms show ?thesis by simp
qed

lemma thm_addend_rebuild:
  assumes r: "\<not> thm_out_of_range x" and w: "take_bit 32 x = x"
  shows "thm_addend (thm_rebuild inst x) = x AND NOT 1"
proof (rule bit_eqI)
  fix n
  have rhs: "bit (x AND NOT 1) n = (bit x n \<and> n \<noteq> 0)"
    by (simp add: bit_and_iff bit_not_int_iff bit_1_iff)
  consider "n = 0" | "1 \<le> n" "n < 12" | "12 \<le> n" "n < 22" | "n = 22" | "23 \<le> n" "n < 32" | "32 \<le> n"
    by linarith
  then have "bit (thm_addend (thm_rebuild inst x)) n = (bit x n \<and> n \<noteq> 0)"
  proof cases
    case 1
    then show ?thesis by (simp add: bit_thm_addend)
  next
    case 2
    then have "n - 1 + 1 = n" by simp
    with 2 show ?thesis by (simp add: bit_thm_addend bit_thm_rebuild)
  next
    case 3
    then have "n - 12 + 16 - 16 + 12 = n" by simp
    with 3 show ?thesis by (simp add: bit_thm_addend bit_thm_rebuild)
  next
    case 4
    then show ?thesis by (auto simp add: bit_thm_addend bit_thm_rebuild)
  next
    case 5
    with in_range_bits[OF r, of n] show ?thesis
      by (simp add: bit_thm_addend bit_thm_rebuild)
  next
    case 6
    with high_bits_32[OF w, of n] show ?thesis
      by (simp add: bit_thm_addend)
  qed
  with rhs show "bit (thm_addend (thm_rebuild inst x)) n = bit (x AND NOT 1) n"
    by simp
qed

section \<open>The halfword order of Thumb instructions in memory\<close>

lemma load_pack_word: "load (pack_word a v mem) a 4 = word_bytes v"
  by (simp add: load_def pack_word_def word_bytes_def upt_rec numeral_eq_Suc)

lemma uint_byte: "uint (word_of_int v :: 8 word) = take_bit 8 v"
  by (simp add: uint_word_of_int_eq)

lemma bit_0xFF: "(0x00FF::int) = gen_mask 8 0" "(0xFF00::int) = gen_mask 8 8" "(0x00FF0000::int) = gen_mask 8 16" "(0xFF000000::int) = gen_mask 8 24"
  by (simp_all add: gen_mask_def)

lemma bit_thm_result:
  "bit (thm_result i) n \<longleftrightarrow>
     (24 \<le> n \<and> n < 24 + 8 \<and> bit i (n - 24 + 8))
       \<or> (16 \<le> n \<and> n < 16 + 8 \<and> bit i (n - 16))
       \<or> (8 \<le> n \<and> n < 8 + 8 \<and> bit i (n - 8 + 24))
       \<or> (n < 8 \<and> bit i (n + 16))"
  unfolding thm_result_def Let_def bit_0xFF
  by (simp only: bit_or_iff bit_field bit_field_low bit_field_up)

lemma bit_halfword_swap:
  "bit (push_bit 16 (push_bit 8 (take_bit 8 (drop_bit 8 r)) OR take_bit 8 r)
          OR (push_bit 8 (take_bit 8 (drop_bit 24 r)) OR take_bit 8 (drop_bit 16 r))) n
   \<longleftrightarrow> (if n < 16 then bit (r::int) (n + 16) else n < 32 \<and> bit r (n - 16))"
proof -
  consider "n < 8" | "8 \<le> n" "n < 16" | "16 \<le> n" "n < 24" | "24 \<le> n" "n < 32" | "32 \<le> n" by linarith
  then show ?thesis
  proof cases
    case 1 then show ?thesis by (auto simp add: bit_simps ac_simps)
  next
    case 2 then have "24 + (n - 8) = n + 16" by simp
    with 2 show ?thesis by (auto simp add: bit_simps ac_simps)
  next
    case 3 then show ?thesis by (auto simp add: bit_simps)
  next
    case 4 then have "8 + (n - 16 - 8) = n - 16" "8 + (n - 24) = n - 16" by simp_all
    with 4 show ?thesis by (auto simp add: bit_simps)
  next
    case 5 then show ?thesis by (auto simp add: bit_simps)
  qed
qed

lemma thm_inst_word_bytes:
  "thm_inst (word_bytes r) =
     Inr (push_bit 16 (push_bit 8 (take_bit 8 (drop_bit 8 r)) OR take_bit 8 r)
          OR (push_bit 8 (take_bit 8 (drop_bit 24 r)) OR take_bit 8 (drop_bit 16 r)))"
  by (simp add: word_bytes_def uint_byte Let_def)

lemma thm_inst_result:
  assumes "take_bit 32 i = i"
  shows "thm_inst (word_bytes (thm_result i)) = Inr i"
  unfolding thm_inst_word_bytes sum.inject
proof (rule bit_eqI)
  fix n :: nat
  let ?r = "thm_result i"
  consider "n < 8" | "8 \<le> n" "n < 16" | "16 \<le> n" "n < 24" | "24 \<le> n" "n < 32" | "32 \<le> n" by linarith
  then have "(if n < 16 then bit ?r (n + 16) else n < 32 \<and> bit ?r (n - 16)) = bit i n"
  proof cases
    case 1 then show ?thesis by (simp add: bit_thm_result)
  next
    case 2 then have "n + 16 - 24 + 8 = n" by simp
    with 2 show ?thesis by (simp add: bit_thm_result)
  next
    case 3 then have "n - 16 + 16 = n" by simp
    with 3 show ?thesis by (simp add: bit_thm_result)
  next
    case 4
    define m where "m = n - 24"
    with 4 have n: "n = m + 24" and m: "m < 8" by simp_all
    show ?thesis unfolding n using m by (simp add: bit_thm_result)
  next
    case 5 with high_bits_32[OF assms, of n] show ?thesis by simp
  qed
  then show "bit (push_bit 16 (push_bit 8 (take_bit 8 (drop_bit 8 ?r)) OR take_bit 8 ?r)
          OR (push_bit 8 (take_bit 8 (drop_bit 24 ?r)) OR take_bit 8 (drop_bit 16 ?r))) n = bit i n"
    by (simp only: bit_halfword_swap)
qed

lemma high_bits_byte:
  assumes "8 \<le> k"
  shows "\<not> bit (uint (b :: 8 word)) k"
  using assms bit_imp_le_length[of b k] by (auto simp add: bit_uint_iff)

lemma thm_inst_32:
  assumes "thm_inst bs = Inr i"
  shows "take_bit 32 i = i"
proof -
  from assms obtain b0 b1 b2 b3 rest where bs: "bs = b0 # b1 # b2 # b3 # rest"
    by (cases bs rule: thm_inst.cases) simp_all
  from assms have i: "i = push_bit 16 (push_bit 8 (uint b1) OR uint b0) OR (push_bit 8 (uint b3) OR uint b2)"
    by (simp add: bs Let_def)
  have "\<not> bit i n" if "32 \<le> n" for n
    using that high_bits_byte[of "n - 16 - 8" b1] high_bits_byte[of "n - 16" b0]
      high_bits_byte[of "n - 8" b3] high_bits_byte[of n b2]
    by (simp add: i bit_or_iff bit_push_bit_iff)
  then have hb: "\<not> bit i n" if "32 \<le> n" for n
    using that by simp
  show ?thesis
  proof (rule bit_eqI)
    fix n
    show "bit (take_bit 32 i) n = bit i n"
      using hb[of n] by (cases "n < 32") (simp_all add: bit_take_bit_iff)
  qed
qed

lemma thm_rebuild_32:
  assumes "take_bit 32 inst = inst"
  shows "take_bit 32 (thm_rebuild inst x) = thm_rebuild inst x"
proof (rule bit_eqI)
  fix n
  show "bit (take_bit 32 (thm_rebuild inst x)) n = bit (thm_rebuild inst x) n"
    using high_bits_32[OF assms, of n]
    by (cases "n < 32") (simp_all add: bit_take_bit_iff bit_thm_rebuild)
qed

section \<open>The range check of \<open>R_ARM_THM_CALL\<close>\<close>

lemma and_0xFFFFFFFF: "(d::int) AND 0xFFFFFFFF = take_bit 32 d"
  by (simp add: take_bit_eq_mask mask_eq_exp_minus_1)

lemma thm_x_32: "take_bit 32 (thm_x P S A T) = thm_x P S A T"
  by (simp add: thm_x_def and_0xFFFFFFFF)

lemma range_32:
  assumes "take_bit 32 x = (x::int)"
  shows "0 \<le> x" and "x < 2 ^ 32"
proof -
  have "0 \<le> take_bit 32 x" by simp
  then show "0 \<le> x" using assms by simp
  have "take_bit 32 x < 2 ^ 32" by (rule take_bit_int_less_exp)
  then show "x < 2 ^ 32" using assms by simp
qed

lemma and_0xFF800000:
  assumes "take_bit 32 x = (x::int)"
  shows "x AND 0xFF800000 = push_bit 23 (drop_bit 23 x)"
proof (rule bit_eqI)
  fix n
  show "bit (x AND 0xFF800000) n = bit (push_bit 23 (drop_bit 23 x)) n"
  proof (cases "n < 32")
    case True
    then show ?thesis
      by (auto simp add: bit_and_iff bit_0xFF800000 bit_push_bit_iff bit_drop_bit_eq)
  next
    case False
    with high_bits_32[OF assms, of n] show ?thesis
      by (simp add: bit_and_iff bit_0xFF800000 bit_push_bit_iff bit_drop_bit_eq)
  qed
qed

lemma thm_out_of_range_iff:
  assumes "take_bit 32 x = x"
  shows "thm_out_of_range x \<longleftrightarrow> \<not> (x < 2 ^ 23 \<or> 2 ^ 32 - 2 ^ 23 \<le> x)"
proof -
  note r = range_32[OF assms]
  have k: "push_bit 23 a = push_bit 23 b \<longleftrightarrow> a = b" for a b :: int
    by (simp add: push_bit_eq_mult)
  have z: "push_bit 23 a = 0 \<longleftrightarrow> a = 0" for a :: int
    by (simp add: push_bit_eq_mult)
  have "thm_out_of_range x \<longleftrightarrow>
          push_bit 23 (drop_bit 23 x) \<noteq> 0 \<and> push_bit 23 (drop_bit 23 x) \<noteq> push_bit 23 511"
    by (simp add: thm_out_of_range_def and_0xFF800000[OF assms])
  also have "\<dots> \<longleftrightarrow> drop_bit 23 x \<noteq> 0 \<and> drop_bit 23 x \<noteq> 511"
    by (simp only: k z)
  also have "\<dots> \<longleftrightarrow> \<not> (x < 2 ^ 23 \<or> 2 ^ 32 - 2 ^ 23 \<le> x)"
    using r by (simp add: drop_bit_eq_div) arith
  finally show ?thesis .
qed

lemma fits_window_iff:
  assumes "take_bit 32 x = x"
  shows "fits_window x \<longleftrightarrow> x < 2 ^ 23 \<or> 2 ^ 32 - 2 ^ 23 \<le> x"
proof -
  note r = range_32[OF assms]
  show ?thesis
  proof (cases "x < 2 ^ 31")
    case True
    with r have "take_bit 32 (x + 2 ^ 31) = x + 2 ^ 31"
      by (simp add: take_bit_int_eq_self)
    then have "signed_take_bit 31 x = x"
      by (simp add: signed_take_bit_eq_take_bit_shift)
    with True r show ?thesis by (simp add: fits_window_def)
  next
    case False
    with r have "take_bit 32 (x + 2 ^ 31 - 2 ^ 32) = x + 2 ^ 31 - 2 ^ 32"
      by (simp add: take_bit_int_eq_self)
    moreover have "take_bit 32 (x + 2 ^ 31 - 2 ^ 32) = take_bit 32 (x + 2 ^ 31)"
      using mod_add_self2[of "x + 2 ^ 31 - 2 ^ 32" "2 ^ 32"] by (simp add: take_bit_eq_mod ac_simps)
    ultimately have "signed_take_bit 31 x = x - 2 ^ 32"
      by (simp add: signed_take_bit_eq_take_bit_shift)
    with False r show ?thesis by (simp add: fits_window_def)
  qed
qed

lemma fits_window_delta:
  assumes "- (2 ^ 31) \<le> d" and "d < 2 ^ 31"
  shows "fits_window (d AND 0xFFFFFFFF) \<longleftrightarrow> - (2 ^ 23) \<le> d \<and> d < 2 ^ 23"
proof -
  have "signed_take_bit 31 (take_bit 32 d) = signed_take_bit 31 d"
    by (simp add: signed_take_bit_take_bit)
  also have "\<dots> = d"
    using assms by (simp add: signed_take_bit_int_eq_self)
  finally show ?thesis
    by (simp add: fits_window_def and_0xFFFFFFFF)
qed

section \<open>The claims on \<open>R_ARM_THM_CALL\<close>\<close>

lemma take_bit_32_window:
  assumes "- (2 ^ 23) \<le> off" and "off < 2 ^ 23"
  shows "take_bit 32 off < 2 ^ 23 \<or> 2 ^ 32 - 2 ^ 23 \<le> take_bit 32 (off::int)"
proof (cases "0 \<le> off")
  case True
  with assms have "take_bit 32 off = off"
    by (simp add: take_bit_int_eq_self)
  with assms show ?thesis by simp
next
  case False
  with assms have "take_bit 32 (off + 2 ^ 32) = off + 2 ^ 32"
    by (simp add: take_bit_int_eq_self)
  moreover have "take_bit 32 (off + 2 ^ 32) = take_bit 32 off"
    by (simp add: take_bit_eq_mod)
  ultimately have "take_bit 32 off = off + 2 ^ 32" by simp
  with assms show ?thesis by simp
qed

lemma thm_decode_after_encode:
  assumes "\<not> thm_out_of_range x" and "take_bit 32 x = x" and "thm_inst bs = Inr inst"
  shows "thm_decode (pack_word a (thm_result (thm_rebuild inst x)) mem) a = Inr (x AND NOT 1)"
proof -
  have "take_bit 32 (thm_rebuild inst x) = thm_rebuild inst x"
    by (rule thm_rebuild_32) (rule thm_inst_32[OF assms(3)])
  then have "thm_inst (word_bytes (thm_result (thm_rebuild inst x))) = Inr (thm_rebuild inst x)"
    by (rule thm_inst_result)
  then show ?thesis
    by (simp add: thm_decode_def load_pack_word thm_addend_rebuild[OF assms(1,2)])
qed

lemma offset_in_range:
  assumes "- (2 ^ 23) \<le> off" and "off < 2 ^ 23"
  shows "\<not> thm_out_of_range (off AND 0xFFFFFFFF)"
    and "take_bit 32 (off AND 0xFFFFFFFF) = off AND 0xFFFFFFFF"
proof -
  show t: "take_bit 32 (off AND 0xFFFFFFFF) = off AND 0xFFFFFFFF"
    by (simp add: and_0xFFFFFFFF)
  show "\<not> thm_out_of_range (off AND 0xFFFFFFFF)"
    using thm_out_of_range_iff[OF t] take_bit_32_window[OF assms(1,2)]
    by (simp add: and_0xFFFFFFFF)
qed

lemma thm_addend_rebuild_offset:
  assumes "- (2 ^ 23) \<le> off" and "off < 2 ^ 23"
  shows "thm_addend (thm_rebuild inst (off AND 0xFFFFFFFF)) = (off AND 0xFFFFFFFF) AND NOT 1"
  using offset_in_range[OF assms] by (rule thm_addend_rebuild)

lemma thm_decode_after_encode_offset:
  assumes "- (2 ^ 23) \<le> off" and "off < 2 ^ 23" and "thm_inst bs = Inr inst"
  shows "thm_decode (pack_word a (thm_result (thm_rebuild inst (off AND 0xFFFFFFFF))) mem) a
         = Inr ((off AND 0xFFFFFFFF) AND NOT 1)"
  using offset_in_range[OF assms(1,2)] assms(3) by (rule thm_decode_after_encode)

lemma and_not_1_even: "even (off::int) \<Longrightarrow> off AND NOT 1 = off"
proof (rule bit_eqI)
  fix n
  assume "even off"
  then have "\<not> bit off 0" by (simp add: bit_0)
  then show "bit (off AND NOT 1) n = bit off n"
    by (cases "n = 0") (simp_all add: bit_and_iff bit_not_int_iff bit_1_iff)
qed

lemma R_ARM_THM_CALL_value_memory:
  "owner_memory (snd (R_ARM_THM_CALL_value r st)) = owner_memory st"
  by (simp add: R_ARM_THM_CALL_value_def Let_def split: option.split sum.split)

text \<open>
  Claim C4. For a resolved \<open>R_ARM_THM_CALL\<close> whose four instruction bytes are at hand, with
  \<open>x\<close> the offset of line 333: if \<open>x\<close> does not fit the signed window of \<open>\<plusminus>2\<^sup>2\<^sup>3\<close>,
  \<open>value\<close> raises \<open>CLEOperationError\<close>; if it fits, \<open>value\<close> raises nothing and returns the
  rebuilt instruction. In every case the memory of the owner is what it was: \<open>value\<close> only
  reads it, and the error leaves \<open>value\<close> before anything is written. For a delta \<open>d\<close>
  within 32 bits, its masked form fits the window exactly when \<open>-2\<^sup>2\<^sup>3 \<le> d < 2\<^sup>2\<^sup>3\<close>.
\<close>

theorem R_ARM_THM_CALL_range_check:
  "(resolvedby r = Some rb \<and> thm_inst (thm_call_bytes r st) = Inr inst \<and>
    x = thm_x (rebased_addr r) (sym_rebased_addr rb)
          (if is_rela r then addend r else thm_addend inst)
          (isThumbFunc (symbol r) (sym_rebased_addr rb)) \<longrightarrow>
      (\<not> fits_window x \<longrightarrow> fst (R_ARM_THM_CALL_value r st) = Inl CLEOperationError) \<and>
      (fits_window x \<longrightarrow>
         fst (R_ARM_THM_CALL_value r st) = Inr (thm_result (thm_rebuild inst x))))
   \<and> owner_memory (snd (R_ARM_THM_CALL_value r st)) = owner_memory st
   \<and> (- (2 ^ 31) \<le> d \<and> d < 2 ^ 31 \<longrightarrow>
        fits_window (d AND 0xFFFFFFFF) = (- (2 ^ 23) \<le> d \<and> d < 2 ^ 23))"
proof -
  have "thm_out_of_range (thm_x P S A T) = (\<not> fits_window (thm_x P S A T))" for P S A T
    by (simp add: thm_out_of_range_iff[OF thm_x_32] fits_window_iff[OF thm_x_32])
  then have "(resolvedby r = Some rb \<and> thm_inst (thm_call_bytes r st) = Inr inst \<and>
    x = thm_x (rebased_addr r) (sym_rebased_addr rb)
          (if is_rela r then addend r else thm_addend inst)
          (isThumbFunc (symbol r) (sym_rebased_addr rb)) \<longrightarrow>
      (\<not> fits_window x \<longrightarrow> fst (R_ARM_THM_CALL_value r st) = Inl CLEOperationError) \<and>
      (fits_window x \<longrightarrow>
         fst (R_ARM_THM_CALL_value r st) = Inr (thm_result (thm_rebuild inst x))))"
    by (simp add: R_ARM_THM_CALL_value_def Let_def)
  then show ?thesis
    using R_ARM_THM_CALL_value_memory[of r st] fits_window_delta[of d] by blast
qed

theorem R_ARM_THM_CALL_range_check_witness:
  "fst (R_ARM_THM_CALL_value
     \<lparr>rebased_addr = 0x1000, relative_addr = 0x1000, addend = 0, is_rela = False,
      symbol = \<lparr>is_function = True, sym_rebased_addr = 0x2000001\<rparr>,
      resolved = True, resolvedby = Some \<lparr>is_function = True, sym_rebased_addr = 0x2000001\<rparr>\<rparr>
     \<lparr>insn_bytes = None, owner_memory = pack_word 0x1000 0xF800F000 (\<lambda>a. 0)\<rparr>)
   = Inl CLEOperationError
   \<and> fst (R_ARM_THM_CALL_value
     \<lparr>rebased_addr = 0x1000, relative_addr = 0x1000, addend = 0, is_rela = False,
      symbol = \<lparr>is_function = True, sym_rebased_addr = 0x2001\<rparr>,
      resolved = True, resolvedby = Some \<lparr>is_function = True, sym_rebased_addr = 0x2001\<rparr>\<rparr>
     \<lparr>insn_bytes = None, owner_memory = pack_word 0x1000 0xF800F000 (\<lambda>a. 0)\<rparr>)
   = Inr 0xF800F001"
  using R_ARM_THM_CALL_range_check
    [of "\<lparr>rebased_addr = 0x1000, relative_addr = 0x1000, addend = 0, is_rela = False,
      symbol = \<lparr>is_function = True, sym_rebased_addr = 0x2000001\<rparr>,
      resolved = True, resolvedby = Some \<lparr>is_function = True, sym_rebased_addr = 0x2000001\<rparr>\<rparr>"
      "\<lparr>is_function = True, sym_rebased_addr = 0x2000001\<rparr>"
      "\<lparr>insn_bytes = None, owner_memory = pack_word 0x1000 0xF800F000 (\<lambda>a. 0)\<rparr>"
      "0xF000F800" "0x1FFF001"]
    R_ARM_THM_CALL_range_check
    [of "\<lparr>rebased_addr = 0x1000, relative_addr = 0x1000, addend = 0, is_rela = False,
      symbol = \<lparr>is_function = True, sym_rebased_addr = 0x2001\<rparr>,
      resolved = True, resolvedby = Some \<lparr>is_function = True, sym_rebased_addr = 0x2001\<rparr>\<rparr>"
      "\<lparr>is_function = True, sym_rebased_addr = 0x2001\<rparr>"
      "\<lparr>insn_bytes = None, owner_memory = pack_word 0x1000 0xF800F000 (\<lambda>a. 0)\<rparr>"
      "0xF000F800" "0x1001"]
  by (simp add: thm_call_bytes_def load_pack_word word_bytes_def thm_x_def isThumbFunc_def
        thm_addend_def gen_mask_def bool_and_1_def fits_window_def thm_rebuild_def thm_result_def)


text \<open>
  Claim C5, as the code has it. The encoder stores bits 1 to 22 and the sign of the offset
  and the decoder sets bit 0 of the addend to 0. For every offset in \<open>[-2\<^sup>2\<^sup>3, 2\<^sup>2\<^sup>3)\<close>, as a
  32-bit two's complement number, and every instruction read from four bytes: encoding the
  offset, storing the result as a little-endian word and decoding the four bytes again yields
  the offset with bit 0 cleared, hence exactly the offset when it is even.
\<close>

theorem thm_call_roundtrip:
  assumes "- (2 ^ 23) \<le> off" and "off < 2 ^ 23" and "thm_inst bs = Inr inst"
  shows "thm_addend (thm_rebuild inst (off AND 0xFFFFFFFF)) = (off AND NOT 1) AND 0xFFFFFFFF
         \<and> thm_decode (pack_word a (thm_result (thm_rebuild inst (off AND 0xFFFFFFFF))) mem) a
           = Inr ((off AND NOT 1) AND 0xFFFFFFFF)
         \<and> (even off \<longrightarrow>
             thm_decode (pack_word a (thm_result (thm_rebuild inst (off AND 0xFFFFFFFF))) mem) a
               = Inr (off AND 0xFFFFFFFF))"
proof -
  have c: "(off AND 0xFFFFFFFF) AND NOT 1 = (off AND NOT 1) AND 0xFFFFFFFF"
    by (simp add: ac_simps)
  with thm_decode_after_encode_offset[OF assms, of a mem]
  have d: "thm_decode (pack_word a (thm_result (thm_rebuild inst (off AND 0xFFFFFFFF))) mem) a
           = Inr ((off AND NOT 1) AND 0xFFFFFFFF)"
    by (simp only:)
  from thm_addend_rebuild_offset[OF assms(1,2), of inst] c
  have e: "thm_addend (thm_rebuild inst (off AND 0xFFFFFFFF)) = (off AND NOT 1) AND 0xFFFFFFFF"
    by (simp only:)
  from d e show ?thesis
    by (auto simp only: and_not_1_even)
qed

theorem thm_call_roundtrip_witness:
  "thm_decode (pack_word 0x1000 (thm_result (thm_rebuild 0xF000F800 (- 4 AND 0xFFFFFFFF)))
                 (\<lambda>a. 0)) 0x1000
     = Inr 0xFFFFFFFC"
  using thm_call_roundtrip[of "- 4" "[0x00, 0xF0, 0x00, 0xF8]" "0xF000F800" "0x1000" "\<lambda>a. 0"]
  by simp

text \<open>
  The offset 1 lies in the window and is what line 333 computes for a Thumb function at
  \<open>P + 1\<close>; it is decoded as 0.
\<close>

theorem thm_call_roundtrip_odd_offset:
  "\<not> (\<forall>off bs inst a mem.
        - (2 ^ 23) \<le> off \<and> off < 2 ^ 23 \<and> thm_inst bs = Inr inst \<longrightarrow>
        thm_decode (pack_word a (thm_result (thm_rebuild inst (off AND 0xFFFFFFFF))) mem) a
          = Inr (off AND 0xFFFFFFFF))"
proof
  assume "\<forall>off bs inst a mem.
        - (2 ^ 23) \<le> off \<and> off < 2 ^ 23 \<and> thm_inst bs = Inr inst \<longrightarrow>
        thm_decode (pack_word a (thm_result (thm_rebuild inst (off AND 0xFFFFFFFF))) mem) a
          = Inr (off AND 0xFFFFFFFF)"
  then have "- (2 ^ 23) \<le> (1::int) \<and> (1::int) < 2 ^ 23
        \<and> thm_inst [0x00, 0xF0, 0x00, 0xF8] = Inr 0xF000F800 \<longrightarrow>
        thm_decode (pack_word 0 (thm_result (thm_rebuild 0xF000F800 (1 AND 0xFFFFFFFF))) (\<lambda>a. 0)) 0
          = Inr (1 AND 0xFFFFFFFF)"
    by blast
  then have "thm_decode (pack_word 0 (thm_result (thm_rebuild 0xF000F800 (1 AND 0xFFFFFFFF))) (\<lambda>a. 0)) 0
          = Inr (1 AND 0xFFFFFFFF)"
    by simp
  moreover have "thm_decode (pack_word 0 (thm_result (thm_rebuild 0xF000F800 (1 AND 0xFFFFFFFF))) (\<lambda>a. 0)) 0
          = Inr ((1 AND 0xFFFFFFFF) AND NOT 1)"
    by (rule thm_decode_after_encode_offset[of 1 "[0x00, 0xF0, 0x00, 0xF8]"]) simp_all
  ultimately show False by simp
qed

section \<open>AArch64: the bits of the patched word\<close>

lemma bit_0xFC000000: "bit (0xFC000000::int) n \<longleftrightarrow> 26 \<le> n \<and> n < 32"
  using bit_const[of "0xFC000000" 26 6 n] by (simp add: mask_eq_exp_minus_1)

lemma bit_0x03FFFFFF: "bit (0x03FFFFFF::int) n \<longleftrightarrow> n < 26"
  using bit_const[of "0x03FFFFFF" 0 26 n] by (simp add: mask_eq_exp_minus_1)

lemma bit_0x9F00001F: "bit (0x9F00001F::int) n \<longleftrightarrow> n < 5 \<or> (24 \<le> n \<and> n < 29) \<or> n = 31"
proof -
  have "(0x9F00001F::int) = push_bit 0 (mask 5) OR push_bit 24 (mask 5) OR push_bit 31 (mask 1)"
    by (simp add: mask_eq_exp_minus_1)
  then show ?thesis
    by (simp only: bit_or_iff bit_const[OF refl]) auto
qed

lemma bit_0xFFC003FF: "bit (0xFFC003FF::int) n \<longleftrightarrow> n < 10 \<or> (22 \<le> n \<and> n < 32)"
proof -
  have "(0xFFC003FF::int) = push_bit 0 (mask 10) OR push_bit 22 (mask 10)"
    by (simp add: mask_eq_exp_minus_1)
  then show ?thesis
    by (simp only: bit_or_iff bit_const[OF refl]) auto
qed

lemma bit_0xFFF: "bit (0xFFF::int) n \<longleftrightarrow> n < 12"
  using bit_const[of "0xFFF" 0 12 n] by (simp add: mask_eq_exp_minus_1)

lemma bit_0x1FFFFF: "bit (0x1FFFFF::int) n \<longleftrightarrow> n < 21"
  using bit_const[of "0x1FFFFF" 0 21 n] by (simp add: mask_eq_exp_minus_1)

lemma bit_3: "bit (3::int) n \<longleftrightarrow> n < 2"
  using bit_const[of "3" 0 2 n] by (auto simp add: mask_eq_exp_minus_1 numeral_2_eq_2)

lemma bit_adrp_imm: "bit (adrp_imm v) n \<longleftrightarrow> n < 21 \<and> bit v (n + 12)"
  by (auto simp add: adrp_imm_def bit_and_iff bit_drop_bit_eq bit_0x1FFFFF ac_simps)

lemma bit_adrp_immlo: "bit (adrp_immlo v) n \<longleftrightarrow> n < 2 \<and> bit v (n + 12)"
  by (auto simp add: adrp_immlo_def bit_and_iff bit_adrp_imm bit_3)

lemma bit_adrp_immhi: "bit (adrp_immhi v) n \<longleftrightarrow> n < 19 \<and> bit v (n + 14)"
  by (auto simp add: adrp_immhi_def bit_drop_bit_eq bit_adrp_imm ac_simps)

lemma bit_branch_patch:
  "bit ((w AND 0xFC000000) OR (drop_bit 2 v AND 0x03FFFFFF)) n
     \<longleftrightarrow> (if n < 26 then bit v (n + 2) else n < 32 \<and> bit (w::int) n)"
  by (auto simp add: bit_or_iff bit_and_iff bit_drop_bit_eq bit_0xFC000000 bit_0x03FFFFFF ac_simps)

lemma bit_adrp_patch:
  "bit (((w AND 0x9F00001F) OR push_bit 5 (adrp_immhi v)) OR push_bit 29 (adrp_immlo v)) n
     \<longleftrightarrow> (if 5 \<le> n \<and> n < 24 then bit v (n + 9)
          else if n = 29 \<or> n = 30 then bit v (n - 17)
          else bit (0x9F00001F::int) n \<and> bit (w::int) n)"
proof -
  consider "n < 5" | "5 \<le> n" "n < 24" | "24 \<le> n" "n < 29" | "n = 29" | "n = 30" | "31 \<le> n"
    by linarith
  then show ?thesis
  proof cases
    case 2
    then have "n - 5 + 14 = n + 9" by simp
    with 2 show ?thesis
      by (simp add: bit_or_iff bit_and_iff bit_push_bit_iff bit_adrp_immhi bit_adrp_immlo bit_0x9F00001F ac_simps)
  qed (auto simp add: bit_or_iff bit_and_iff bit_push_bit_iff bit_adrp_immhi bit_adrp_immlo bit_0x9F00001F)
qed

lemma bit_lo12_patch:
  assumes "s \<le> 4"
  shows "bit ((w AND 0xFFC003FF) OR push_bit 10 (drop_bit s (v AND 0xFFF))) n
     \<longleftrightarrow> (if 10 \<le> n \<and> n < 22 then n + s < 22 \<and> bit v (n - 10 + s)
          else n < 32 \<and> bit (w::int) n)"
  using assms
  by (auto simp add: bit_or_iff bit_and_iff bit_push_bit_iff bit_drop_bit_eq bit_0xFFC003FF bit_0xFFF ac_simps)

lemma aarch64_patch_frame:
  assumes "take_bit 32 w = w" and "n \<notin> aarch64_field k"
  shows "bit (aarch64_patch k v w) n = bit w n"
proof -
  have hb: "n < 32" if "bit w n"
    using that high_bits_32[OF assms(1), of n] by (cases "n < 32") simp_all
  show ?thesis
  proof (cases k)
  case R_AARCH64_JUMP26
  with assms(2) hb show ?thesis
    by (auto simp add: Let_def bit_branch_patch)
next
  case R_AARCH64_CALL26
  with assms(2) hb show ?thesis
    by (auto simp add: Let_def bit_branch_patch)
next
  case R_AARCH64_ADR_PREL_PG_HI21
  with assms(2) hb show ?thesis
    by (auto simp add: Let_def bit_adrp_patch bit_0x9F00001F)
next
  case R_AARCH64_ADD_ABS_LO12_NC
  with assms(2) hb bit_lo12_patch[of 0 w v n] show ?thesis
    by (auto simp add: Let_def)
next
  case R_AARCH64_LDST8_ABS_LO12_NC
  with assms(2) hb bit_lo12_patch[of 0 w v n] show ?thesis
    by (auto simp add: Let_def)
next
  case R_AARCH64_LDST16_ABS_LO12_NC
  with assms(2) hb bit_lo12_patch[of 1 w v n] show ?thesis
    by (auto simp add: Let_def)
next
  case R_AARCH64_LDST32_ABS_LO12_NC
  with assms(2) hb bit_lo12_patch[of 2 w v n] show ?thesis
    by (auto simp add: Let_def)
next
  case R_AARCH64_LDST64_ABS_LO12_NC
  with assms(2) hb bit_lo12_patch[of 3 w v n] show ?thesis
    by (auto simp add: Let_def)
next
  case R_AARCH64_LDST128_ABS_LO12_NC
  with assms(2) hb bit_lo12_patch[of 4 w v n] show ?thesis
    by (auto simp add: Let_def)
  qed
qed

section \<open>Words in memory\<close>

lemma aarch64_field_32: "n \<in> aarch64_field k \<Longrightarrow> n < 32"
  by (cases k) auto

lemma aarch64_patch_32:
  assumes "take_bit 32 w = w"
  shows "take_bit 32 (aarch64_patch k v w) = aarch64_patch k v w"
proof (rule bit_eqI)
  fix n
  show "bit (take_bit 32 (aarch64_patch k v w)) n = bit (aarch64_patch k v w) n"
  proof (cases "n < 32")
    case True
    then show ?thesis by (simp add: bit_take_bit_iff)
  next
    case False
    then have "n \<notin> aarch64_field k"
      using aarch64_field_32[of n k] by blast
    with False aarch64_patch_frame[OF assms this, of v] high_bits_32[OF assms, of n]
    show ?thesis by (simp add: bit_take_bit_iff)
  qed
qed

lemma unpack_word_32: "take_bit 32 (unpack_word a m) = unpack_word a m"
proof -
  have hb: "\<not> bit (unpack_word a m) n" if "32 \<le> n" for n
    using that high_bits_byte[of "n - 24" "m (a + 3)"] high_bits_byte[of "n - 16" "m (a + 2)"]
      high_bits_byte[of "n - 8" "m (a + 1)"] high_bits_byte[of n "m a"]
    by (simp add: unpack_word_def bit_or_iff bit_push_bit_iff)
  show ?thesis
  proof (rule bit_eqI)
    fix n
    show "bit (take_bit 32 (unpack_word a m)) n = bit (unpack_word a m) n"
      using hb[of n] by (cases "n < 32") (simp_all add: bit_take_bit_iff)
  qed
qed

lemma bit_le_bytes:
  "bit (take_bit 8 v OR push_bit 8 (take_bit 8 (drop_bit 8 v))
        OR push_bit 16 (take_bit 8 (drop_bit 16 v)) OR push_bit 24 (take_bit 8 (drop_bit 24 v))) n
   \<longleftrightarrow> n < 32 \<and> bit (v::int) n"
proof -
  consider "n < 8" | "8 \<le> n" "n < 16" | "16 \<le> n" "n < 24" | "24 \<le> n" "n < 32" | "32 \<le> n" by linarith
  then show ?thesis
    by cases (auto simp add: bit_simps)
qed

lemma unpack_pack_word: "unpack_word a (pack_word a v m) = take_bit 32 v"
proof -
  have "unpack_word a (pack_word a v m)
        = take_bit 8 v OR push_bit 8 (take_bit 8 (drop_bit 8 v))
          OR push_bit 16 (take_bit 8 (drop_bit 16 v)) OR push_bit 24 (take_bit 8 (drop_bit 24 v))"
    by (simp add: unpack_word_def pack_word_def uint_byte)
  also have "\<dots> = take_bit 32 v"
    by (rule bit_eqI) (simp only: bit_le_bytes bit_take_bit_iff)
  finally show ?thesis .
qed

lemma pack_word_other:
  assumes "b \<noteq> a" and "b \<noteq> a + 1" and "b \<noteq> a + 2" and "b \<noteq> a + 3"
  shows "pack_word a v m b = m b"
  using assms by (simp add: pack_word_def)

section \<open>The claims on the AArch64 relocations\<close>

lemma aarch64_relocate_resolved:
  assumes "resolved r" and "resolvedby r = Some rb"
  shows "fst (aarch64_relocate k r st) = Inr True"
    and "owner_mem (snd (aarch64_relocate k r st))
         = pack_word (relative_addr r)
             (aarch64_patch k (aarch64_value k r rb) (unpack_word (relative_addr r) (owner_mem st)))
             (owner_mem st)"
  using assms by (simp_all add: aarch64_relocate_def Let_def)

lemma aarch64_relocate_word:
  assumes "resolved r" and "resolvedby r = Some rb"
  shows "unpack_word (relative_addr r) (owner_mem (snd (aarch64_relocate k r st)))
         = aarch64_patch k (aarch64_value k r rb) (unpack_word (relative_addr r) (owner_mem st))"
proof -
  let ?w = "unpack_word (relative_addr r) (owner_mem st)"
  let ?p = "aarch64_patch k (aarch64_value k r rb) ?w"
  have w: "take_bit 32 ?w = ?w" by (rule unpack_word_32)
  have "unpack_word (relative_addr r) (owner_mem (snd (aarch64_relocate k r st))) = take_bit 32 ?p"
    by (simp only: aarch64_relocate_resolved(2)[OF assms] unpack_pack_word)
  also have "\<dots> = ?p" by (rule aarch64_patch_32[OF w])
  finally show ?thesis .
qed

text \<open>
  Claim C8. For a record that is still unresolved, \<open>relocate\<close>, for each of the AArch64
  instruction-patching types, returns \<open>False\<close> and leaves the state, the memory of the owner
  included, as it was. Whenever no binding is set nothing is written, whatever the flag.
\<close>

theorem aarch64_relocate_unresolved:
  "(\<not> resolved r \<longrightarrow> aarch64_relocate k r st = (Inr False, st))
   \<and> (resolvedby r = None \<longrightarrow> snd (aarch64_relocate k r st) = st)"
  by (simp add: aarch64_relocate_def)

theorem aarch64_relocate_unresolved_witness:
  "aarch64_relocate R_AARCH64_JUMP26
     \<lparr>rebased_addr = 0x1000, relative_addr = 0x1000, addend = 0, is_rela = True,
      symbol = \<lparr>is_function = True, sym_rebased_addr = 0\<rparr>, resolved = False, resolvedby = None\<rparr>
     \<lparr>owner_mem = pack_word 0x1000 0x14000000 (\<lambda>a. 0), owner_warnings = []\<rparr>
   = (Inr False, \<lparr>owner_mem = pack_word 0x1000 0x14000000 (\<lambda>a. 0), owner_warnings = []\<rparr>)"
  using aarch64_relocate_unresolved
    [of "\<lparr>rebased_addr = 0x1000, relative_addr = 0x1000, addend = 0, is_rela = True,
      symbol = \<lparr>is_function = True, sym_rebased_addr = 0\<rparr>, resolved = False, resolvedby = None\<rparr>"
      R_AARCH64_JUMP26
      "\<lparr>owner_mem = pack_word 0x1000 0x14000000 (\<lambda>a. 0), owner_warnings = []\<rparr>"]
  by simp

text \<open>
  Claim C9. For each AArch64 instruction-patching type, every bit outside the field of the
  type is the same in the word written as in the 32-bit word read. So when a resolved
  relocation is applied, \<open>relocate\<close> returns \<open>True\<close>, every bit of the instruction word in
  memory outside the field is the bit stored before, and no byte outside the four bytes of
  the word changes.
\<close>

theorem aarch64_relocate_frame:
  "(take_bit 32 w = w \<and> n \<notin> aarch64_field k \<longrightarrow> bit (aarch64_patch k v w) n = bit w n)
   \<and> (resolved r \<and> resolvedby r = Some rb \<longrightarrow>
        fst (aarch64_relocate k r st) = Inr True
        \<and> (\<forall>n. n \<notin> aarch64_field k \<longrightarrow>
              bit (unpack_word (relative_addr r) (owner_mem (snd (aarch64_relocate k r st)))) n
                = bit (unpack_word (relative_addr r) (owner_mem st)) n)
        \<and> (\<forall>a. a \<noteq> relative_addr r \<and> a \<noteq> relative_addr r + 1 \<and> a \<noteq> relative_addr r + 2
                 \<and> a \<noteq> relative_addr r + 3 \<longrightarrow>
              owner_mem (snd (aarch64_relocate k r st)) a = owner_mem st a))"
proof -
  have m: "fst (aarch64_relocate k r st) = Inr True
        \<and> (\<forall>n. n \<notin> aarch64_field k \<longrightarrow>
              bit (unpack_word (relative_addr r) (owner_mem (snd (aarch64_relocate k r st)))) n
                = bit (unpack_word (relative_addr r) (owner_mem st)) n)
        \<and> (\<forall>a. a \<noteq> relative_addr r \<and> a \<noteq> relative_addr r + 1 \<and> a \<noteq> relative_addr r + 2
                 \<and> a \<noteq> relative_addr r + 3 \<longrightarrow>
              owner_mem (snd (aarch64_relocate k r st)) a = owner_mem st a)"
    if h: "resolved r" "resolvedby r = Some rb"
  proof -
    let ?a = "relative_addr r"
    let ?w = "unpack_word ?a (owner_mem st)"
    let ?p = "aarch64_patch k (aarch64_value k r rb) ?w"
    have w: "take_bit 32 ?w = ?w" by (rule unpack_word_32)
    have "unpack_word ?a (owner_mem (snd (aarch64_relocate k r st))) = take_bit 32 ?p"
      by (simp only: aarch64_relocate_resolved(2)[OF h] unpack_pack_word)
    also have "\<dots> = ?p" by (rule aarch64_patch_32[OF w])
    finally have u: "unpack_word ?a (owner_mem (snd (aarch64_relocate k r st))) = ?p" .
    have "bit ?p n = bit ?w n" if "n \<notin> aarch64_field k" for n
      using w that by (rule aarch64_patch_frame)
    moreover have "owner_mem (snd (aarch64_relocate k r st)) a = owner_mem st a"
      if "a \<noteq> ?a" "a \<noteq> ?a + 1" "a \<noteq> ?a + 2" "a \<noteq> ?a + 3" for a
      using that by (simp add: aarch64_relocate_resolved(2)[OF h] pack_word_other)
    ultimately show ?thesis
      unfolding u using aarch64_relocate_resolved(1)[OF h] by blast
  qed
  show ?thesis
    using m aarch64_patch_frame[of w n k v] by blast
qed

theorem aarch64_relocate_frame_witness:
  "fst (aarch64_relocate R_AARCH64_ADR_PREL_PG_HI21
     \<lparr>rebased_addr = 0x1000, relative_addr = 0x1000, addend = 0x800, is_rela = True,
      symbol = \<lparr>is_function = False, sym_rebased_addr = 0\<rparr>,
      resolved = True, resolvedby = Some \<lparr>is_function = False, sym_rebased_addr = 0x3000\<rparr>\<rparr>
     \<lparr>owner_mem = pack_word 0x1000 0x90000000 (\<lambda>a. 0), owner_warnings = []\<rparr>) = Inr True
   \<and> bit (unpack_word 0x1000 (owner_mem (snd (aarch64_relocate R_AARCH64_ADR_PREL_PG_HI21
     \<lparr>rebased_addr = 0x1000, relative_addr = 0x1000, addend = 0x800, is_rela = True,
      symbol = \<lparr>is_function = False, sym_rebased_addr = 0\<rparr>,
      resolved = True, resolvedby = Some \<lparr>is_function = False, sym_rebased_addr = 0x3000\<rparr>\<rparr>
     \<lparr>owner_mem = pack_word 0x1000 0x90000000 (\<lambda>a. 0), owner_warnings = []\<rparr>)))) 31"
proof -
  let ?r = "\<lparr>rebased_addr = 0x1000, relative_addr = 0x1000, addend = 0x800, is_rela = True,
      symbol = \<lparr>is_function = False, sym_rebased_addr = 0\<rparr>,
      resolved = True, resolvedby = Some \<lparr>is_function = False, sym_rebased_addr = 0x3000\<rparr>\<rparr>"
  let ?st = "\<lparr>owner_mem = pack_word 0x1000 0x90000000 (\<lambda>a. 0), owner_warnings = []\<rparr>"
  have h: "resolved ?r \<and> resolvedby ?r = Some \<lparr>is_function = False, sym_rebased_addr = 0x3000\<rparr>"
    by simp
  have n: "31 \<notin> aarch64_field R_AARCH64_ADR_PREL_PG_HI21"
    by simp
  have b: "bit (unpack_word 0x1000 (owner_mem ?st)) 31"
    by (simp add: unpack_pack_word)
  from aarch64_relocate_frame
         [of _ _ R_AARCH64_ADR_PREL_PG_HI21 _ ?r "\<lparr>is_function = False, sym_rebased_addr = 0x3000\<rparr>" ?st]
       h n b
  show ?thesis by simp
qed

text \<open>
  Claim C6. The value of \<open>R_AARCH64_ADR_PREL_PG_HI21\<close> is \<open>Page(S + A) - Page(P)\<close> with
  \<open>Page(x) = x & ~0xFFF\<close>. The immediate is bits 12 to 32 of the value, 21 bits; its low 2
  bits are written at bits \<open>[30:29]\<close> of the instruction and its high 19 bits at bits
  \<open>[23:5]\<close>: after \<open>relocate\<close> of a resolved record, bits \<open>[30:29]\<close> of the instruction
  word in memory are \<open>immlo\<close> and bits \<open>[23:5]\<close> are \<open>immhi\<close> of the value. For \<open>P = 0x1000\<close>
  and \<open>S + A = 0x3800\<close> the value is \<open>0x2000\<close>, the immediate 2, \<open>immlo\<close> 2 and \<open>immhi\<close> 0.
\<close>

theorem adrp_value_and_immediate:
  "aarch64_value R_AARCH64_ADR_PREL_PG_HI21 r rb
     = ((sym_rebased_addr rb + addend r) AND NOT 0xFFF) - (rebased_addr r AND NOT 0xFFF)
   \<and> adrp_imm v = take_bit 21 (drop_bit 12 v)
   \<and> adrp_immlo v = take_bit 2 (adrp_imm v)
   \<and> adrp_immhi v = take_bit 19 (drop_bit 2 (adrp_imm v))
   \<and> take_bit 2 (drop_bit 29 (aarch64_patch R_AARCH64_ADR_PREL_PG_HI21 v w)) = adrp_immlo v
   \<and> take_bit 19 (drop_bit 5 (aarch64_patch R_AARCH64_ADR_PREL_PG_HI21 v w)) = adrp_immhi v
   \<and> (resolved r \<and> resolvedby r = Some rb \<longrightarrow>
        fst (aarch64_relocate R_AARCH64_ADR_PREL_PG_HI21 r st) = Inr True
        \<and> take_bit 2 (drop_bit 29 (unpack_word (relative_addr r)
              (owner_mem (snd (aarch64_relocate R_AARCH64_ADR_PREL_PG_HI21 r st)))))
            = adrp_immlo (aarch64_value R_AARCH64_ADR_PREL_PG_HI21 r rb)
        \<and> take_bit 19 (drop_bit 5 (unpack_word (relative_addr r)
              (owner_mem (snd (aarch64_relocate R_AARCH64_ADR_PREL_PG_HI21 r st)))))
            = adrp_immhi (aarch64_value R_AARCH64_ADR_PREL_PG_HI21 r rb))
   \<and> (rebased_addr r = 0x1000 \<and> sym_rebased_addr rb + addend r = 0x3800 \<longrightarrow>
        aarch64_value R_AARCH64_ADR_PREL_PG_HI21 r rb = 0x2000)
   \<and> adrp_imm 0x2000 = 2 \<and> adrp_immlo 0x2000 = 2 \<and> adrp_immhi 0x2000 = 0"
proof -
  have a: "adrp_imm v = take_bit 21 (drop_bit 12 v)"
    by (rule bit_eqI) (auto simp add: bit_adrp_imm bit_take_bit_iff bit_drop_bit_eq ac_simps)
  have b: "adrp_immlo v = take_bit 2 (adrp_imm v)"
    by (rule bit_eqI) (auto simp add: bit_adrp_immlo bit_adrp_imm bit_take_bit_iff)
  have c: "adrp_immhi v = take_bit 19 (drop_bit 2 (adrp_imm v))"
    by (rule bit_eqI) (auto simp add: bit_adrp_immhi bit_adrp_imm bit_take_bit_iff bit_drop_bit_eq ac_simps)
  have td: "bit (take_bit m (drop_bit j x)) n \<longleftrightarrow> n < m \<and> bit x (n + j)" for m j n and x :: int
    by (auto simp add: bit_take_bit_iff bit_drop_bit_eq ac_simps)
  have p: "aarch64_patch R_AARCH64_ADR_PREL_PG_HI21 v w
           = ((w AND 0x9F00001F) OR push_bit 5 (adrp_immhi v)) OR push_bit 29 (adrp_immlo v)"
    for v w
    by (simp add: Let_def)
  have d: "take_bit 2 (drop_bit 29 (aarch64_patch R_AARCH64_ADR_PREL_PG_HI21 v w)) = adrp_immlo v"
    for v w
  proof (rule bit_eqI)
    fix n :: nat
    have "bit (take_bit 2 (drop_bit 29 (aarch64_patch R_AARCH64_ADR_PREL_PG_HI21 v w))) n
          = (n < 2 \<and> bit v (n + 29 - 17))"
      unfolding td p bit_adrp_patch by auto
    moreover have "n + 29 - 17 = n + 12" by simp
    ultimately show "bit (take_bit 2 (drop_bit 29 (aarch64_patch R_AARCH64_ADR_PREL_PG_HI21 v w))) n
          = bit (adrp_immlo v) n"
      by (simp only: bit_adrp_immlo)
  qed
  have e: "take_bit 19 (drop_bit 5 (aarch64_patch R_AARCH64_ADR_PREL_PG_HI21 v w)) = adrp_immhi v"
    for v w
  proof (rule bit_eqI)
    fix n :: nat
    have "bit (take_bit 19 (drop_bit 5 (aarch64_patch R_AARCH64_ADR_PREL_PG_HI21 v w))) n
          = (n < 19 \<and> bit v (n + 5 + 9))"
      unfolding td p bit_adrp_patch by auto
    moreover have "n + 5 + 9 = n + 14" by simp
    ultimately show "bit (take_bit 19 (drop_bit 5 (aarch64_patch R_AARCH64_ADR_PREL_PG_HI21 v w))) n
          = bit (adrp_immhi v) n"
      by (simp only: bit_adrp_immhi)
  qed
  have f: "aarch64_value R_AARCH64_ADR_PREL_PG_HI21 r rb = 0x2000"
    if "rebased_addr r = 0x1000" "sym_rebased_addr rb + addend r = 0x3800"
    using that by (simp add: Let_def)
  have g: "adrp_imm 0x2000 = 2" "adrp_immlo 0x2000 = 2" "adrp_immhi 0x2000 = 0"
    by (simp_all add: adrp_imm_def adrp_immlo_def adrp_immhi_def)
  have h: "fst (aarch64_relocate R_AARCH64_ADR_PREL_PG_HI21 r st) = Inr True
        \<and> take_bit 2 (drop_bit 29 (unpack_word (relative_addr r)
              (owner_mem (snd (aarch64_relocate R_AARCH64_ADR_PREL_PG_HI21 r st)))))
            = adrp_immlo (aarch64_value R_AARCH64_ADR_PREL_PG_HI21 r rb)
        \<and> take_bit 19 (drop_bit 5 (unpack_word (relative_addr r)
              (owner_mem (snd (aarch64_relocate R_AARCH64_ADR_PREL_PG_HI21 r st)))))
            = adrp_immhi (aarch64_value R_AARCH64_ADR_PREL_PG_HI21 r rb)"
    if "resolved r \<and> resolvedby r = Some rb"
  proof -
    from that have r: "resolved r" "resolvedby r = Some rb" by simp_all
    show ?thesis
      by (simp only: aarch64_relocate_word[OF r] aarch64_relocate_resolved(1)[OF r] d e)
  qed
  have v: "aarch64_value R_AARCH64_ADR_PREL_PG_HI21 r rb
     = ((sym_rebased_addr rb + addend r) AND NOT 0xFFF) - (rebased_addr r AND NOT 0xFFF)"
    by (simp add: Let_def)
  from a b c d[of v w] e[of v w] f g h v show ?thesis
    by blast
qed

theorem adrp_value_and_immediate_witness:
  "aarch64_value R_AARCH64_ADR_PREL_PG_HI21
     \<lparr>rebased_addr = 0x1000, relative_addr = 0x1000, addend = 0x800, is_rela = True,
      symbol = \<lparr>is_function = False, sym_rebased_addr = 0\<rparr>,
      resolved = True, resolvedby = Some \<lparr>is_function = False, sym_rebased_addr = 0x3000\<rparr>\<rparr>
     \<lparr>is_function = False, sym_rebased_addr = 0x3000\<rparr> = 0x2000
   \<and> take_bit 2 (drop_bit 29 (unpack_word 0x1000
        (owner_mem (snd (aarch64_relocate R_AARCH64_ADR_PREL_PG_HI21
          \<lparr>rebased_addr = 0x1000, relative_addr = 0x1000, addend = 0x800, is_rela = True,
           symbol = \<lparr>is_function = False, sym_rebased_addr = 0\<rparr>,
           resolved = True, resolvedby = Some \<lparr>is_function = False, sym_rebased_addr = 0x3000\<rparr>\<rparr>
          \<lparr>owner_mem = pack_word 0x1000 0x90000000 (\<lambda>a. 0), owner_warnings = []\<rparr>))))) = 2
   \<and> take_bit 19 (drop_bit 5 (unpack_word 0x1000
        (owner_mem (snd (aarch64_relocate R_AARCH64_ADR_PREL_PG_HI21
          \<lparr>rebased_addr = 0x1000, relative_addr = 0x1000, addend = 0x800, is_rela = True,
           symbol = \<lparr>is_function = False, sym_rebased_addr = 0\<rparr>,
           resolved = True, resolvedby = Some \<lparr>is_function = False, sym_rebased_addr = 0x3000\<rparr>\<rparr>
          \<lparr>owner_mem = pack_word 0x1000 0x90000000 (\<lambda>a. 0), owner_warnings = []\<rparr>))))) = 0"
proof -
  let ?r = "\<lparr>rebased_addr = 0x1000, relative_addr = 0x1000, addend = 0x800, is_rela = True,
      symbol = \<lparr>is_function = False, sym_rebased_addr = 0\<rparr>,
      resolved = True, resolvedby = Some \<lparr>is_function = False, sym_rebased_addr = 0x3000\<rparr>\<rparr>"
  let ?rb = "\<lparr>is_function = False, sym_rebased_addr = 0x3000\<rparr>"
  let ?st = "\<lparr>owner_mem = pack_word 0x1000 0x90000000 (\<lambda>a. 0), owner_warnings = []\<rparr>"
  have h: "resolved ?r \<and> resolvedby ?r = Some ?rb"
      "rebased_addr ?r = 0x1000 \<and> sym_rebased_addr ?rb + addend ?r = 0x3800"
      "relative_addr ?r = 0x1000"
    by simp_all
  note t = adrp_value_and_immediate[of ?r ?rb _ _ ?st]
  from t h(2) have v: "aarch64_value R_AARCH64_ADR_PREL_PG_HI21 ?r ?rb = 0x2000"
    by blast
  from t h(1) have
    "take_bit 2 (drop_bit 29 (unpack_word (relative_addr ?r)
       (owner_mem (snd (aarch64_relocate R_AARCH64_ADR_PREL_PG_HI21 ?r ?st)))))
       = adrp_immlo (aarch64_value R_AARCH64_ADR_PREL_PG_HI21 ?r ?rb)"
    "take_bit 19 (drop_bit 5 (unpack_word (relative_addr ?r)
       (owner_mem (snd (aarch64_relocate R_AARCH64_ADR_PREL_PG_HI21 ?r ?st)))))
       = adrp_immhi (aarch64_value R_AARCH64_ADR_PREL_PG_HI21 ?r ?rb)"
    by blast+
  moreover from t have "adrp_immlo 0x2000 = 2" "adrp_immhi 0x2000 = 0"
    by blast+
  ultimately show ?thesis
    unfolding v h(3) using v by simp
qed

section \<open>PE base relocations: registration\<close>

declare register_entries.simps [simp del]

lemma register_entries_done:
  "\<not> i < length es \<Longrightarrow> register_entries g es i s = s"
  by (simp add: register_entries.simps)

lemma register_entries_highadj:
  "i < length es \<Longrightarrow> entry_type (es ! i) = RELOCATION_TYPE_HIGHADJ \<Longrightarrow>
   register_entries g es i s =
     register_entries g es (i + 1 + 1)
       (add_reloc (make_reloc g (entry_rva (es ! i)) (Some (entry_type (es ! i))) None
                     (Some (entry_rva (es ! i))) None) s)"
  by (subst register_entries.simps) (simp add: Let_def)

lemma register_entries_other:
  "i < length es \<Longrightarrow> entry_type (es ! i) \<noteq> RELOCATION_TYPE_HIGHADJ \<Longrightarrow>
   register_entries g es i s =
     register_entries g es (i + 1)
       (add_reloc (make_reloc g (entry_rva (es ! i)) (Some (entry_type (es ! i))) None
                     None None) s)"
  by (subst register_entries.simps) (simp add: Let_def)

lemma add_reloc_grows:
  "\<exists>new. relocs (add_reloc rl s) = relocs s @ new
         \<and> pic (add_reloc rl s) = (pic s \<or> new \<noteq> [])
         \<and> pe_warnings (add_reloc rl s) = pe_warnings s"
  by (cases rl) (simp_all add: add_reloc_def)

lemma grows_trans:
  assumes "\<exists>new. relocs s1 = relocs s @ new \<and> pic s1 = (pic s \<or> new \<noteq> [])
                 \<and> pe_warnings s1 = pe_warnings s"
    and "\<exists>new. relocs s2 = relocs s1 @ new \<and> pic s2 = (pic s1 \<or> new \<noteq> [])
                 \<and> pe_warnings s2 = pe_warnings s1"
  shows "\<exists>new. relocs s2 = relocs s @ new \<and> pic s2 = (pic s \<or> new \<noteq> [])
                 \<and> pe_warnings s2 = pe_warnings s"
proof -
  from assms(1) obtain n1 where 1: "relocs s1 = relocs s @ n1" "pic s1 = (pic s \<or> n1 \<noteq> [])"
    "pe_warnings s1 = pe_warnings s" by blast
  from assms(2) obtain n2 where 2: "relocs s2 = relocs s1 @ n2" "pic s2 = (pic s1 \<or> n2 \<noteq> [])"
    "pe_warnings s2 = pe_warnings s1" by blast
  from 1 2 have "relocs s2 = relocs s @ (n1 @ n2) \<and> pic s2 = (pic s \<or> n1 @ n2 \<noteq> [])
                 \<and> pe_warnings s2 = pe_warnings s"
    by simp
  then show ?thesis by blast
qed

lemma register_entries_grows:
  "\<exists>new. relocs (register_entries g es i s) = relocs s @ new
         \<and> pic (register_entries g es i s) = (pic s \<or> new \<noteq> [])
         \<and> pe_warnings (register_entries g es i s) = pe_warnings s"
proof (induction g es i s rule: register_entries.induct)
  case (1 g es i s)
  consider (finished) "\<not> i < length es"
    | (adj) "i < length es" "entry_type (es ! i) = RELOCATION_TYPE_HIGHADJ"
    | (other) "i < length es" "entry_type (es ! i) \<noteq> RELOCATION_TYPE_HIGHADJ"
    by blast
  then show ?case
  proof cases
    case finished
    then show ?thesis by (simp add: register_entries_done)
  next
    case adj
    from adj(1) have ne: "i \<noteq> length es" by simp
    show ?thesis
      unfolding register_entries_highadj[OF adj]
      by (rule grows_trans[OF add_reloc_grows "1.IH"(1)[OF adj(1) refl adj(2) ne refl refl]])
  next
    case other
    show ?thesis
      unfolding register_entries_other[OF other]
      by (rule grows_trans[OF add_reloc_grows "1.IH"(2)[OF other(1) refl other(2) refl]])
  qed
qed

lemma fold_register_entries_grows:
  "\<exists>new. relocs (fold (\<lambda>b s. register_entries g b 0 s) blocks s) = relocs s @ new
         \<and> pic (fold (\<lambda>b s. register_entries g b 0 s) blocks s) = (pic s \<or> new \<noteq> [])
         \<and> pe_warnings (fold (\<lambda>b s. register_entries g b 0 s) blocks s) = pe_warnings s"
proof (induction blocks arbitrary: s)
  case Nil
  then show ?case by simp
next
  case (Cons b blocks)
  show ?case
    unfolding fold_Cons comp_apply
    by (rule grows_trans[OF register_entries_grows Cons.IH])
qed

lemma register_relocs_grows:
  "\<exists>new. relocs (register_relocs g dir s) = relocs s @ new
         \<and> pic (register_relocs g dir s) = (pic s \<or> new \<noteq> [])
         \<and> pe_warnings (register_relocs g dir s) = pe_warnings s"
  by (cases dir) (simp_all add: register_relocs_def fold_register_entries_grows)


text \<open>
  Claim C10. \<open>__register_relocs\<close> only appends to \<open>relocs\<close>, and afterwards \<open>pic\<close> holds
  exactly when it held before or a record was appended: a record produced by an entry sets
  \<open>pic\<close>, also when \<open>__init__\<close> left it \<open>False\<close> because the dynamic-base bit \<open>0x40\<close> of
  \<open>DllCharacteristics\<close> is unset, and a \<open>pic\<close> that held before still holds.
\<close>

theorem register_relocs_pic:
  "(\<exists>new. relocs (register_relocs g dir s) = relocs s @ new
          \<and> pic (register_relocs g dir s) = (pic s \<or> new \<noteq> []))
   \<and> (dll AND 0x40 = 0 \<and> pic s = init_pic False dll
        \<and> relocs (register_relocs g dir s) \<noteq> relocs s \<longrightarrow> pic (register_relocs g dir s))
   \<and> (pic s \<longrightarrow> pic (register_relocs g dir s))"
proof -
  from register_relocs_grows[of g dir s] obtain new
    where n: "relocs (register_relocs g dir s) = relocs s @ new"
      "pic (register_relocs g dir s) = (pic s \<or> new \<noteq> [])"
    by blast
  then show ?thesis by auto
qed

theorem register_relocs_pic_witness:
  "pic (register_relocs (\<lambda>t. if t = 3 then Some ''HIGHLOW'' else None)
         (Some [[\<lparr>entry_type = 3, entry_rva = 0x1000\<rparr>]])
         \<lparr>pic = init_pic False 0x100, relocs = [], pe_warnings = []\<rparr>)
   \<and> \<not> init_pic False 0x100"
  using register_relocs_pic
    [of "\<lambda>t. if t = 3 then Some ''HIGHLOW'' else None"
        "Some [[\<lparr>entry_type = 3, entry_rva = 0x1000\<rparr>]]"
        "\<lparr>pic = init_pic False 0x100, relocs = [], pe_warnings = []\<rparr>" "0x100"]
  by (simp add: register_relocs_def register_entries.simps RELOCATION_TYPE_HIGHADJ_def
        make_reloc_def add_reloc_def init_pic_def)

text \<open>
  Claim C2, at a block of a HIGHADJ entry (type 4) at RVA \<open>0x10\<close> followed by an entry at RVA
  \<open>0x1234\<close>, and at a block that ends with the HIGHADJ entry. In both the record built is
  \<open>IMAGE_REL_BASED_HIGHADJ\<close> with \<open>next_rva = 0x10\<close>, the RVA of the HIGHADJ entry itself:
  \<open>next_entry\<close> is read at \<open>entry_idx\<close> before \<open>entry_idx\<close> is advanced. The entry that
  follows is skipped, and its RVA \<open>0x1234\<close> is used nowhere. For the truncated block no
  warning is logged: the test \<open>entry_idx == len(base_reloc.entries)\<close> is made under the loop
  condition \<open>entry_idx < len(base_reloc.entries)\<close>.
\<close>

theorem register_relocs_highadj_reads_own_entry:
  "register_relocs g
     (Some [[\<lparr>entry_type = 4, entry_rva = 0x10\<rparr>, \<lparr>entry_type = 3, entry_rva = 0x1234\<rparr>]])
     \<lparr>pic = False, relocs = [], pe_warnings = []\<rparr>
   = \<lparr>pic = True, relocs = [IMAGE_REL_BASED_HIGHADJ 0x10 0x10], pe_warnings = []\<rparr>
   \<and> register_relocs g
     (Some [[\<lparr>entry_type = 4, entry_rva = 0x10\<rparr>]])
     \<lparr>pic = False, relocs = [], pe_warnings = []\<rparr>
   = \<lparr>pic = True, relocs = [IMAGE_REL_BASED_HIGHADJ 0x10 0x10], pe_warnings = []\<rparr>"
  by (simp add: register_relocs_def register_entries.simps RELOCATION_TYPE_HIGHADJ_def
        make_reloc_def add_reloc_def)

end
